theory Spec2Isabelle
  imports Main "HOL-Library.Char_ord"
begin

section \<open>JavaScript values and objects\<close>

text \<open>
  The gateway handles untyped JSON entities.  A value is one of the JSON shapes; an object
  is an association list from property names to values, in insertion order.  Numbers that
  occur in the entities (sizes, counts) are integers.  \<open>JBuiltin n\<close> is the member named
  \<open>n\<close> that every object inherits from \<^verbatim>\<open>Object.prototype\<close>.
\<close>

datatype jsval =
    JUndefined
  | JNull
  | JBool bool
  | JNum int
  | JStr string
  | JObj "(string \<times> jsval) list"
  | JArr "jsval list"
  | JBuiltin string

type_synonym jsobj = "(string \<times> jsval) list"

text \<open>Truthiness, as used by \<^verbatim>\<open>if (x)\<close>, \<^verbatim>\<open>x || y\<close> and \<^verbatim>\<open>x && y\<close>.\<close>

fun truthy :: "jsval \<Rightarrow> bool" where
  "truthy JUndefined = False"
| "truthy JNull = False"
| "truthy (JBool b) = b"
| "truthy (JNum n) = (n \<noteq> 0)"
| "truthy (JStr s) = (s \<noteq> [])"
| "truthy (JObj _) = True"
| "truthy (JArr _) = True"
| "truthy (JBuiltin _) = True"

text \<open>\<^verbatim>\<open>a || b\<close>: the first operand when it is truthy, the second otherwise.\<close>

definition js_or :: "jsval \<Rightarrow> jsval \<Rightarrow> jsval" where
  "js_or a b = (if truthy a then a else b)"

text \<open>\<^verbatim>\<open>obj.k\<close> on an object: a missing property reads as \<^verbatim>\<open>undefined\<close>.\<close>

definition jget :: "jsobj \<Rightarrow> string \<Rightarrow> jsval" where
  "jget obj k = (case map_of obj k of None \<Rightarrow> JUndefined | Some v \<Rightarrow> v)"

text \<open>The names every object inherits from \<^verbatim>\<open>Object.prototype\<close>.\<close>

definition object_prototype :: "string list" where
  "object_prototype =
     [''constructor'', ''toString'', ''toLocaleString'', ''valueOf'', ''hasOwnProperty'',
      ''isPrototypeOf'', ''propertyIsEnumerable'', ''__proto__'', ''__defineGetter__'',
      ''__defineSetter__'', ''__lookupGetter__'', ''__lookupSetter__'']"

text \<open>\<^verbatim>\<open>obj[k]\<close> with a key computed from the request: an own property, else the
  member inherited under that name, else \<^verbatim>\<open>undefined\<close>.  (The property names written
  in the source itself are none of the inherited ones, so \<open>jget\<close> reads them.)\<close>

definition jget_computed :: "jsobj \<Rightarrow> string \<Rightarrow> jsval" where
  "jget_computed obj k =
     (case map_of obj k of
        Some v \<Rightarrow> v
      | None \<Rightarrow> if k \<in> set object_prototype then JBuiltin k else JUndefined)"

text \<open>\<^verbatim>\<open>obj.hasOwnProperty(k)\<close>.\<close>

definition hasOwnProperty :: "jsobj \<Rightarrow> string \<Rightarrow> bool" where
  "hasOwnProperty obj k = (map_of obj k \<noteq> None)"

text \<open>\<^verbatim>\<open>obj.k = v\<close>: overwrite in place, or add the property after the existing ones.\<close>

fun set_prop :: "jsobj \<Rightarrow> string \<Rightarrow> jsval \<Rightarrow> jsobj" where
  "set_prop [] k v = [(k, v)]"
| "set_prop ((k', v') # kvs) k v =
     (if k' = k then (k, v) # kvs else (k', v') # set_prop kvs k v)"

text \<open>\<^verbatim>\<open>v.k\<close> on an arbitrary value that is already known not to be null or undefined:
  only objects carry the properties read by this code.\<close>

fun get_prop :: "jsval \<Rightarrow> string \<Rightarrow> jsval" where
  "get_prop (JObj obj) k = jget obj k"
| "get_prop _ k = JUndefined"

section \<open>Strings and the regular expressions of the source\<close>

fun starts_with :: "string \<Rightarrow> string \<Rightarrow> bool" where
  "starts_with [] s = True"
| "starts_with (p # ps) [] = False"
| "starts_with (p # ps) (c # cs) = (p = c \<and> starts_with ps cs)"

text \<open>An unanchored literal pattern, \<^verbatim>\<open>/lit/.test(s)\<close>: the literal occurs somewhere in \<open>s\<close>.\<close>

fun contains :: "string \<Rightarrow> string \<Rightarrow> bool" where
  "contains pat [] = (pat = [])"
| "contains pat (c # cs) = (starts_with pat (c # cs) \<or> contains pat cs)"

text \<open>A literal anchored at the end, \<^verbatim>\<open>/lit$/.test(s)\<close>.\<close>

definition ends_with :: "string \<Rightarrow> string \<Rightarrow> bool" where
  "ends_with pat s = starts_with (rev pat) (rev s)"

text \<open>\<^verbatim>\<open>/6\.5/.test(v)\<close>, the test for the legacy protocol track used by both modules.\<close>

definition test_6_5 :: "string \<Rightarrow> bool" where
  "test_6_5 v = contains ''6.5'' v"

text \<open>
  \<^verbatim>\<open>UUID_RE = /^[a-f0-9]{8}-[a-f0-9]{4}-[a-f0-9]{4}-[a-f0-9]{4}-[a-f0-9]{12}$/\<close>:
  five runs of lower-case hexadecimal digits of lengths 8, 4, 4, 4 and 12, separated by
  dashes, and nothing else.
\<close>

definition hex_lower :: "char \<Rightarrow> bool" where
  "hex_lower c = (c \<in> set ''abcdef0123456789'')"

fun hex_run :: "nat \<Rightarrow> string \<Rightarrow> string option" where
  "hex_run 0 s = Some s"
| "hex_run (Suc n) [] = None"
| "hex_run (Suc n) (c # cs) = (if hex_lower c then hex_run n cs else None)"

fun hex_groups :: "nat list \<Rightarrow> string \<Rightarrow> bool" where
  "hex_groups [] s = False"
| "hex_groups [n] s = (hex_run n s = Some [])"
| "hex_groups (n # m # ns) s =
     (case hex_run n s of
        Some (c # r) \<Rightarrow> c = CHR ''-'' \<and> hex_groups (m # ns) r
      | _ \<Rightarrow> False)"

definition UUID_RE_test :: "string \<Rightarrow> bool" where
  "UUID_RE_test s = hex_groups [8, 4, 4, 4, 12] s"

text \<open>\<^verbatim>\<open>/^\/[^\/]+\/datasets/.test(url)\<close>: a slash, a non-empty first path segment, then
  \<^verbatim>\<open>/datasets\<close>.\<close>

definition isDeprecatedEndpoint :: "string \<Rightarrow> bool" where
  "isDeprecatedEndpoint u =
     (case u of
        [] \<Rightarrow> False
      | c # cs \<Rightarrow> c = CHR ''/'' \<and> takeWhile (\<lambda>x. x \<noteq> CHR ''/'') cs \<noteq> []
                 \<and> starts_with ''/datasets'' (dropWhile (\<lambda>x. x \<noteq> CHR ''/'') cs))"

text \<open>\<^verbatim>\<open>toLowerCase\<close> and \<^verbatim>\<open>toUpperCase\<close> on the ASCII letters of an HTTP method.\<close>

definition lower_char :: "char \<Rightarrow> char" where
  "lower_char c =
     (if CHR ''A'' \<le> c \<and> c \<le> CHR ''Z'' then char_of (of_char c + (32::nat)) else c)"

definition upper_char :: "char \<Rightarrow> char" where
  "upper_char c =
     (if CHR ''a'' \<le> c \<and> c \<le> CHR ''z'' then char_of (of_char c - (32::nat)) else c)"

definition toLowerCase :: "string \<Rightarrow> string" where
  "toLowerCase s = map lower_char s"

definition toUpperCase :: "string \<Rightarrow> string" where
  "toUpperCase s = map upper_char s"

section \<open>Requests, backends and outcomes\<close>

text \<open>
  Errors are values.  A backend or cache failure is handed to the continuation
  (\<^verbatim>\<open>next(err)\<close>); \<^verbatim>\<open>ResourceNotFoundError\<close> carries the value formatted into its
  message \<^verbatim>\<open>'%s not found'\<close>; a \<^verbatim>\<open>TypeError\<close> is what reading a property of
  \<^verbatim>\<open>null\<close> or \<^verbatim>\<open>undefined\<close> throws.
\<close>

datatype error =
    BackendError string
  | CacheError string
  | ResourceNotFoundError jsval
  | TypeError string

text \<open>How a handler ends: \<^verbatim>\<open>next()\<close>, \<^verbatim>\<open>next(err)\<close>, or an exception that
  escapes it.\<close>

datatype outcome = Next | NextErr error | Threw error

text \<open>
  The per-request state read and written by the two modules.  Route and query parameters
  are strings; a parameter that is not given reads as \<^verbatim>\<open>undefined\<close>.  The account has
  been loaded by the authentication handlers that run before and the backend clients are
  set up, so the assertions at the head of the handlers hold;
  \<open>pathname\<close> is \<^verbatim>\<open>req.getUrl().pathname\<close>, \<open>version\<close> is \<^verbatim>\<open>req.getVersion()\<close>,
  \<open>max_packages_lifetime\<close> is \<^verbatim>\<open>req.config.redis.max_packages_lifetime\<close>, and the two
  bleeding-edge fields are the configuration objects copied into the request, \<open>None\<close>
  when the configuration has none.
\<close>

record req =
  url :: string
  pathname :: string
  req_method :: string
  params :: "(string \<times> string) list"
  version :: string
  account_uuid :: string
  account_login :: string
  accountMgmt :: bool
  pkg :: jsval
  packages :: "jsobj list option"
  dataset :: jsval
  datasets :: "jsobj list option"
  bleedingEdgeFeatures :: "jsobj option"
  bleedingEdgeLoginWhitelist :: "jsobj option"
  max_packages_lifetime :: int

definition param :: "req \<Rightarrow> string \<Rightarrow> string option" where
  "param r k = map_of (params r) k"

text \<open>Truthiness of a parameter: it is given and is not the empty string.\<close>

definition given :: "string option \<Rightarrow> bool" where
  "given v = (case v of None \<Rightarrow> False | Some x \<Rightarrow> x \<noteq> [])"

text \<open>\<^verbatim>\<open>a || b\<close> on two parameters.\<close>

definition param_or :: "string option \<Rightarrow> string option \<Rightarrow> string option" where
  "param_or a b = (if given a then a else b)"

text \<open>
  The backend clients (\<^verbatim>\<open>req.sdc.papi\<close>, \<^verbatim>\<open>req.sdc.imgapi\<close>) are external: each call is a
  function from its query to the error or the value its callback receives.  A list call
  answers with an array of entity objects; \<^verbatim>\<open>getImage\<close> is asked for whatever identifier
  the parameters hold, \<open>None\<close> for \<^verbatim>\<open>undefined\<close>.  The request-id header sent along is
  not part of the query.
\<close>

record sdc =
  papi_get :: "string \<Rightarrow> jsobj \<Rightarrow> error + jsobj"
  papi_list :: "jsobj \<Rightarrow> error + jsobj list"
  imgapi_getImage :: "string option \<Rightarrow> error + jsobj"
  imgapi_listImages :: "jsobj \<Rightarrow> error + jsobj list"

text \<open>
  The \<^verbatim>\<open>semver\<close> package is external as well and is a parameter of the model:
  \<open>valid\<close> normalises a version (\<open>None\<close> for \<^verbatim>\<open>null\<close>, the answer on anything that is
  not a version), \<open>gte\<close> compares two results of \<open>valid\<close> and may throw, \<open>satisfies\<close>
  tests a version against a range.
\<close>

record semver =
  valid :: "jsval \<Rightarrow> string option"
  gte :: "string option \<Rightarrow> string option \<Rightarrow> error + bool"
  satisfies :: "string \<Rightarrow> string \<Rightarrow> bool"

text \<open>
  The reduction that occurs three times in the source,
  \<^verbatim>\<open>xs.reduce(function (a, b) { if (semver.gte(valid(a.version), valid(b.version))) return a; else return b; })\<close>:
  \<open>a\<close> is the accumulator (at first the head of the array), \<open>bs\<close> what is left.
\<close>

fun reduce_gte :: "semver \<Rightarrow> jsobj \<Rightarrow> jsobj list \<Rightarrow> error + jsobj" where
  "reduce_gte sv a [] = Inr a"
| "reduce_gte sv a (b # bs) =
     (case gte sv (valid sv (jget a ''version'')) (valid sv (jget b ''version'')) of
        Inl e \<Rightarrow> Inl e
      | Inr g \<Rightarrow> reduce_gte sv (if g then a else b) bs)"

section \<open>packages.js\<close>

text \<open>\<^verbatim>\<open>translate(req, pkg)\<close>; both assertions hold for every request and entity object.\<close>

definition packages_translate :: "req \<Rightarrow> jsobj \<Rightarrow> jsobj" where
  "packages_translate r raw =
     (let p = [(''name'', jget raw ''name''),
               (''memory'', jget raw ''max_physical_memory''),
               (''disk'', jget raw ''quota''),
               (''swap'', jget raw ''max_swap''),
               (''vcpus'', js_or (jget raw ''vcpus'') (JNum 0)),
               (''default'', js_or (jget raw ''default'') (JBool False))]
      in if \<not> test_6_5 (version r) then
           (let p1 = set_prop p ''id'' (jget raw ''uuid'');
                p2 = set_prop p1 ''version'' (jget raw ''version'');
                p3 = (if truthy (jget raw ''description'')
                      then set_prop p2 ''description'' (jget raw ''description'') else p2);
                p4 = (if truthy (jget raw ''group'')
                      then set_prop p3 ''group'' (jget raw ''group'') else p3)
            in p4)
         else p)"

text \<open>The tail shared by the by-name and the default-package branches of
  \<^verbatim>\<open>loadPackages\<close>: nothing is selected from an empty array, otherwise the reduction
  decides, and an exception thrown by the comparison escapes the callback.\<close>

definition select_newest :: "semver \<Rightarrow> req \<Rightarrow> jsobj list \<Rightarrow> req \<times> outcome" where
  "select_newest sv r pkgs =
     (case pkgs of
        [] \<Rightarrow> (r, Next)
      | a # bs \<Rightarrow>
          (case reduce_gte sv a bs of
             Inl e \<Rightarrow> (r, Threw e)
           | Inr p \<Rightarrow> (r\<lparr>pkg := JObj p\<rparr>, Next)))"

text \<open>The branch of \<^verbatim>\<open>loadPackages\<close> taken when the route names a package, by UUID
  or by name.\<close>

definition loadPackages_named :: "semver \<Rightarrow> sdc \<Rightarrow> req \<Rightarrow> string \<Rightarrow> req \<times> outcome" where
  "loadPackages_named sv s r pkgName =
     (if UUID_RE_test pkgName then
        (case papi_get s pkgName [(''owner_uuids'', JStr (account_uuid r))] of
           Inl err \<Rightarrow> (r, NextErr err)
         | Inr p \<Rightarrow> (r\<lparr>pkg := JObj p\<rparr>, Next))
      else
        (case papi_list s [(''name'', JStr pkgName), (''owner_uuids'', JStr (account_uuid r)),
                           (''active'', JBool True)] of
           Inl err \<Rightarrow> (r, NextErr err)
         | Inr pkgs \<Rightarrow> select_newest sv r pkgs))"

text \<open>The rest of \<^verbatim>\<open>loadPackages\<close>, reached when no package is named: machines
  listing, then the resize action with its default package.\<close>

definition loadPackages_unnamed :: "semver \<Rightarrow> sdc \<Rightarrow> req \<Rightarrow> req \<times> outcome" where
  "loadPackages_unnamed sv s r =
     (if ends_with ''/machines'' (pathname r) \<and> toLowerCase (req_method r) \<noteq> ''post'' then
        (case papi_list s [] of
           Inl err \<Rightarrow> (r, NextErr err)
         | Inr pkgs \<Rightarrow> (r\<lparr>packages := Some pkgs\<rparr>, Next))
      else if toLowerCase (req_method r) \<noteq> ''post'' \<or> param r ''action'' \<noteq> Some ''resize''
        then (r, Next)
      else
        (case papi_list s [(''owner_uuids'', JStr (account_uuid r)), (''active'', JBool True)] of
           Inl err \<Rightarrow> (r, NextErr err)
         | Inr pkgs \<Rightarrow>
             select_newest sv (r\<lparr>packages := Some pkgs\<rparr>)
               (filter (\<lambda>p. jget p ''default'' = JBool True) pkgs)))"

definition loadPackages :: "semver \<Rightarrow> sdc \<Rightarrow> req \<Rightarrow> req \<times> outcome" where
  "loadPackages sv s r0 =
     (if url r0 = ''/--ping'' then (r0, Next)
      else
        let r = r0\<lparr>pkg := JBool False\<rparr> in
        if ends_with ''/packages'' (pathname r) then (r, Next)
        else
          (case param r ''package'' of
             None \<Rightarrow> loadPackages_unnamed sv s r
           | Some pkgName \<Rightarrow>
               if pkgName \<noteq> [] then loadPackages_named sv s r pkgName
               else loadPackages_unnamed sv s r))"

subsection \<open>The result cache\<close>

text \<open>
  The cache store: its entries by key, whether the store currently fails (and with which
  error), and a log of the keys looked up and of the writes attempted.
\<close>

record cache =
  entries :: "string \<Rightarrow> jsobj list option"
  fault :: "error option"
  lookups :: "string list"
  writes :: "(string \<times> int \<times> jsobj list) list"

text \<open>
  Modelled from the spec: \<^verbatim>\<open>cache.get\<close> of \<^verbatim>\<open>lib/cache.js\<close>, which is not among the
  sources.  The spec gives \<^verbatim>\<open>get(tenantKey) -> (hit, value)\<close>, best-effort, and says that
  a request that is not eligible disables the read.  So \<open>cache_get\<close> answers a miss
  without touching the store when the caller passes \<open>canUse = False\<close>; otherwise it looks
  the key up and hands the callback the store's error, or the entry, or a miss.
\<close>

definition cache_get ::
  "cache \<Rightarrow> string \<Rightarrow> bool \<Rightarrow> cache \<times> error option \<times> jsobj list option" where
  "cache_get c key canUse =
     (if \<not> canUse then (c, None, None)
      else
        let c' = c\<lparr>lookups := lookups c @ [key]\<rparr> in
        (case fault c of
           Some e \<Rightarrow> (c', Some e, None)
         | None \<Rightarrow> (c', None, entries c key)))"

text \<open>
  Modelled from the spec: \<^verbatim>\<open>cache.set\<close> of \<^verbatim>\<open>lib/cache.js\<close>, which is not among the
  sources.  The spec gives \<^verbatim>\<open>set(tenantKey, ttlSeconds, value) -> void\<close>, best-effort:
  \<open>cache_set\<close> attempts the write and returns nothing to the caller; a failing store
  keeps its entries.  Expiry is enforced by the store and is not modelled.
\<close>

definition cache_set :: "cache \<Rightarrow> string \<Rightarrow> int \<Rightarrow> jsobj list \<Rightarrow> cache" where
  "cache_set c key lifetime v =
     (let c' = c\<lparr>writes := writes c @ [(key, lifetime, v)]\<rparr> in
      (case fault c of
         Some e \<Rightarrow> c'
       | None \<Rightarrow> c'\<lparr>entries := (entries c)(key \<mapsto> v)\<rparr>))"

text \<open>
  What a list request leaves behind outside the request object: the cache, the queries
  sent to the package backend, the body passed to \<^verbatim>\<open>res.send\<close>, and whether
  \<^verbatim>\<open>resources.getRoleTags(req, res)\<close> was called (it only decorates the response).
\<close>

record world =
  store :: cache
  papi_queries :: "jsobj list"
  response :: "jsobj list option"
  role_tags :: bool

subsection \<open>Listing packages\<close>

definition getCacheKey :: "req \<Rightarrow> string" where
  "getCacheKey r = ''packages_'' @ account_uuid r"

text \<open>\<^verbatim>\<open>if (params.k) { opts.k' = params.k; }\<close>\<close>

definition copy_param :: "req \<Rightarrow> string \<Rightarrow> string \<Rightarrow> jsobj \<Rightarrow> jsobj" where
  "copy_param r k k' opts =
     (case param r k of
        None \<Rightarrow> opts
      | Some v \<Rightarrow> if v \<noteq> [] then set_prop opts k' (JStr v) else opts)"

text \<open>The filter built from the recognised parameters, before \<^verbatim>\<open>active\<close> and
  \<^verbatim>\<open>owner_uuids\<close> are added.\<close>

definition list_opts :: "req \<Rightarrow> jsobj" where
  "list_opts r =
     (copy_param r ''group'' ''group''
     (copy_param r ''vcpus'' ''vcpus''
     (copy_param r ''version'' ''version''
     (copy_param r ''swap'' ''max_swap''
     (copy_param r ''disk'' ''quota''
     (copy_param r ''memory'' ''max_physical_memory''
     (copy_param r ''name'' ''name'' [])))))))"

text \<open>\<^verbatim>\<open>var canUseCache = (Object.keys(opts).length === 0);\<close>\<close>

definition canUseCache :: "req \<Rightarrow> bool" where
  "canUseCache r = (length (list_opts r) = 0)"

text \<open>\<^verbatim>\<open>sendResult(err, pkgs, saveToCache)\<close>, with the callback's pair \<open>(err, pkgs)\<close> as a
  sum.\<close>

definition sendResult ::
  "req \<Rightarrow> world \<Rightarrow> error + jsobj list \<Rightarrow> bool \<Rightarrow> world \<times> outcome" where
  "sendResult r w res saveToCache =
     (case res of
        Inl err \<Rightarrow> (w, NextErr err)
      | Inr pkgs \<Rightarrow>
          let w1 = (if saveToCache
                    then w\<lparr>store := cache_set (store w) (getCacheKey r)
                                      (max_packages_lifetime r) pkgs\<rparr>
                    else w)
          in (w1\<lparr>response := Some (map (packages_translate r) pkgs)\<rparr>, Next))"

text \<open>The callback given to \<^verbatim>\<open>cache.get\<close>: \<open>err\<close> and \<open>cachedPkgs\<close> are what the cache
  layer reports, \<open>opts\<close> is the complete backend filter.\<close>

definition list_cache_cb ::
  "sdc \<Rightarrow> req \<Rightarrow> world \<Rightarrow> jsobj \<Rightarrow> bool \<Rightarrow> error option \<Rightarrow> jsobj list option
     \<Rightarrow> world \<times> outcome" where
  "list_cache_cb s r w opts canUse err cachedPkgs =
     (case (err, cachedPkgs) of
        (None, Some pkgs) \<Rightarrow> sendResult r w (Inr pkgs) False
      | _ \<Rightarrow>
          sendResult r (w\<lparr>papi_queries := papi_queries w @ [opts]\<rparr>) (papi_list s opts) canUse)"

definition packages_list :: "sdc \<Rightarrow> req \<Rightarrow> world \<Rightarrow> world \<times> outcome" where
  "packages_list s r w0 =
     (let w = (if accountMgmt r then w0\<lparr>role_tags := True\<rparr> else w0);
          opts = set_prop (set_prop (list_opts r) ''active'' (JBool True))
                   ''owner_uuids'' (JStr (account_uuid r))
      in (case cache_get (store w) (getCacheKey r) (canUseCache r) of
            (c, err, cachedPkgs) \<Rightarrow>
              list_cache_cb s r (w\<lparr>store := c\<rparr>) opts (canUseCache r) err cachedPkgs))"

section \<open>datasets.js\<close>

text \<open>
  \<^verbatim>\<open>errorObjFromImgapiImage(image)\<close>.  Reading \<^verbatim>\<open>image.error.code\<close> throws when the
  \<^verbatim>\<open>error\<close> property is \<^verbatim>\<open>undefined\<close> or \<^verbatim>\<open>null\<close>; the \<^verbatim>\<open>switch\<close> compares with
  \<^verbatim>\<open>===\<close>, so only a string equal to the label selects a case.
\<close>

definition errorObjFromImgapiImage :: "jsobj \<Rightarrow> error + jsobj" where
  "errorObjFromImgapiImage img =
     (let ev = jget img ''error'' in
      if ev = JUndefined \<or> ev = JNull
        then Inl (TypeError ''Cannot read property 'code' of undefined'')
      else
        let c = get_prop ev ''code'' in
        if c = JStr ''PrepareImageDidNotRun'' \<or> c = JStr ''VmHasNoOrigin''
             \<or> c = JStr ''NotSupported''
        then Inr (set_prop (set_prop [] ''code'' (get_prop ev ''code''))
                    ''message'' (get_prop ev ''message''))
        else Inr (set_prop (set_prop [] ''code'' (JStr ''InternalError''))
                    ''message''
                    (JStr ''an unexpected error occurred (Contact support for assistance.)'')))"

text \<open>
  \<^verbatim>\<open>a === b\<close>.  Primitive values are compared by value; objects and arrays are compared
  by identity, which this model does not track: two object values are never identical.
  An inherited member is identical to itself.
\<close>

fun strict_eq :: "jsval \<Rightarrow> jsval \<Rightarrow> bool" where
  "strict_eq (JObj _) _ = False"
| "strict_eq (JArr _) _ = False"
| "strict_eq a b = (a = b)"

text \<open>The \<^verbatim>\<open>requirements\<close> object of a translated image.\<close>

definition translate_requirements :: "jsval \<Rightarrow> jsobj" where
  "translate_requirements rq =
     (if truthy rq then
        let o1 = set_prop [] ''password'' (get_prop rq ''password'');
            o2 = (if truthy (get_prop rq ''max_ram'')
                  then set_prop (set_prop o1 ''max_memory'' (get_prop rq ''max_ram''))
                         ''max_ram'' (get_prop rq ''max_ram'')
                  else o1);
            o3 = (if truthy (get_prop rq ''min_ram'')
                  then set_prop (set_prop o2 ''min_memory'' (get_prop rq ''min_ram''))
                         ''min_ram'' (get_prop rq ''min_ram'')
                  else o2)
        in o3
      else [])"

text \<open>The bleeding-edge condition: the image-management feature is on and the white-list
  object answers with a truthy value under the account's login (a computed key) or under
  the wildcard.\<close>

definition bleeding_edge_img_mgmt :: "req \<Rightarrow> bool" where
  "bleeding_edge_img_mgmt r =
     (case bleedingEdgeFeatures r of
        None \<Rightarrow> False
      | Some feats \<Rightarrow>
          truthy (jget feats ''img_mgmt'') \<and>
          (case bleedingEdgeLoginWhitelist r of
             None \<Rightarrow> False
           | Some wl \<Rightarrow>
               truthy (jget_computed wl (account_login r)) \<or> truthy (jget wl ''*'')))"

text \<open>The \<^verbatim>\<open>fields\<close> table of \<^verbatim>\<open>translate\<close>; its keys, in insertion order, drive the
  copying loop.\<close>

definition translate_fields :: "semver \<Rightarrow> req \<Rightarrow> string list" where
  "translate_fields sv r =
     (let f0 = [(''tags'', JBool True)];
          f1 = (if \<not> isDeprecatedEndpoint (url r) \<and> satisfies sv ''7.0.0'' (version r)
                then set_prop (set_prop f0 ''homepage'' (JBool True))
                       ''published_at'' (JBool True)
                else f0);
          f2 = (if \<not> isDeprecatedEndpoint (url r) \<and>
                   (satisfies sv ''7.1.0'' (version r) \<or> bleeding_edge_img_mgmt r)
                then foldl (\<lambda>f k. set_prop f k (JBool True)) f1
                       [''owner'', ''homepage'', ''published_at'', ''public'', ''state'',
                        ''eula'', ''acl'', ''origin'', ''error'']
                else f1)
      in map fst f2)"

text \<open>The loop over \<^verbatim>\<open>fieldNames\<close>: a field the entity does not own is skipped, the
  \<^verbatim>\<open>error\<close> field is translated, every other field is copied.\<close>

fun copy_fields :: "jsobj \<Rightarrow> string list \<Rightarrow> jsobj \<Rightarrow> error + jsobj" where
  "copy_fields ds [] obj = Inr obj"
| "copy_fields ds (f # fs) obj =
     (if \<not> hasOwnProperty ds f then copy_fields ds fs obj
      else if f = ''error'' then
        (case errorObjFromImgapiImage ds of
           Inl e \<Rightarrow> Inl e
         | Inr eo \<Rightarrow> copy_fields ds fs (set_prop obj ''error'' (JObj eo)))
      else copy_fields ds fs (set_prop obj f (jget ds f)))"

text \<open>\<^verbatim>\<open>translate(req, dataset)\<close> of \<^verbatim>\<open>datasets.js\<close>.\<close>

definition datasets_translate :: "semver \<Rightarrow> req \<Rightarrow> jsobj \<Rightarrow> error + jsobj" where
  "datasets_translate sv r ds =
     (let obj = [(''id'', jget ds ''uuid''),
                 (''name'', jget ds ''name''),
                 (''version'', jget ds ''version''),
                 (''os'', jget ds ''os''),
                 (''requirements'', JObj (translate_requirements (jget ds ''requirements'')))];
          obj1 = (if truthy (jget ds ''type'')
                  then set_prop obj ''type''
                         (if jget ds ''type'' = JStr ''zvol''
                          then JStr ''virtualmachine'' else JStr ''smartmachine'')
                  else obj);
          obj2 = (if truthy (jget ds ''description'')
                  then set_prop obj1 ''description'' (jget ds ''description'') else obj1);
          obj3 = (if truthy (jget ds ''urn'') \<and> isDeprecatedEndpoint (url r)
                  then set_prop obj2 ''urn'' (jget ds ''urn'') else obj2);
          v = version r;
          obj4 = (if v \<noteq> ''*'' \<and> satisfies sv ''6.5.0'' v then
                    let d1 = set_prop obj3 ''default''
                               (if truthy (dataset r)
                                then JBool (strict_eq (get_prop (dataset r) ''uuid'')
                                                      (jget ds ''uuid''))
                                else dataset r)
                    in if truthy (jget ds ''published_at'')
                       then set_prop d1 ''created'' (jget ds ''published_at'') else d1
                  else obj3)
      in copy_fields ds (translate_fields sv r) obj4)"

text \<open>\<^verbatim>\<open>loadImage(req, cb)\<close>: the identifier is \<^verbatim>\<open>params.dataset || params.image\<close>; the
  account is intentionally not passed, so that a disabled image can still be loaded.\<close>

definition loadImage :: "sdc \<Rightarrow> req \<Rightarrow> error + jsobj" where
  "loadImage s r = imgapi_getImage s (param_or (param r ''dataset'') (param r ''image''))"

text \<open>The type filter
  \<^verbatim>\<open>{'smartmachine': 'zone-dataset', 'virtualmachine': 'zvol'}[req.params.type]\<close>: a
  lookup in an object literal under a computed key.\<close>

definition image_type_filter :: "string \<Rightarrow> jsval" where
  "image_type_filter t =
     jget_computed [(''smartmachine'', JStr ''zone-dataset''),
                    (''virtualmachine'', JStr ''zvol'')] t"

definition loadImages_opts :: "req \<Rightarrow> jsobj" where
  "loadImages_opts r =
     (let opts = [(''account'', JStr (account_uuid r))] in
      if \<not> contains ''/machines'' (url r) \<and>
         ((contains ''/images'' (url r) \<or> contains ''/datasets'' (url r)) \<and>
          \<not> (contains ''/images/'' (url r) \<or> contains ''/datasets/'' (url r)))
      then
        let o6 = copy_param r ''owner'' ''owner''
                  (copy_param r ''state'' ''state''
                  (copy_param r ''public'' ''public''
                  (copy_param r ''version'' ''version''
                  (copy_param r ''os'' ''os''
                  (copy_param r ''name'' ''name'' opts)))))
        in (case param r ''type'' of
              None \<Rightarrow> o6
            | Some t \<Rightarrow> if t \<noteq> [] then set_prop o6 ''type'' (image_type_filter t) else o6)
      else opts)"

definition loadImages :: "sdc \<Rightarrow> req \<Rightarrow> error + jsobj list" where
  "loadImages s r = imgapi_listImages s (loadImages_opts r)"

text \<open>Only for machines listing.\<close>

definition loadDisabledImages :: "sdc \<Rightarrow> req \<Rightarrow> error + jsobj list" where
  "loadDisabledImages s r =
     (if contains ''/machines'' (url r) \<and> \<not> contains ''/machines/'' (url r) \<and>
         toUpperCase (req_method r) \<noteq> ''POST''
      then imgapi_listImages s [(''state'', JStr ''disabled'')]
      else Inr [])"

definition getImage :: "sdc \<Rightarrow> req \<Rightarrow> req \<times> outcome" where
  "getImage s r =
     (if truthy (dataset r) then (r, Next)
      else
        (case loadImage s r of
           Inl err \<Rightarrow> (r, NextErr err)
         | Inr img \<Rightarrow>
             if jget img ''state'' = JStr ''destroyed''
             then (r, NextErr (ResourceNotFoundError (jget img ''uuid'')))
             else (r\<lparr>dataset := JObj img\<rparr>, Next)))"

text \<open>\<^verbatim>\<open>_d === v\<close> for a parameter \<open>_d\<close>: a string parameter equals only the same string,
  a missing one only \<^verbatim>\<open>undefined\<close>.\<close>

definition param_eq :: "string option \<Rightarrow> jsval \<Rightarrow> bool" where
  "param_eq d v = (case d of None \<Rightarrow> v = JUndefined | Some x \<Rightarrow> v = JStr x)"

definition curImg65_matches :: "req \<Rightarrow> jsobj list \<Rightarrow> jsobj list" where
  "curImg65_matches r ds =
     (if given (param_or (param r ''dataset'') (param r ''image'')) then
        let d0 = param_or (param r ''dataset'') (param r ''image'') in
        filter (\<lambda>d. param_eq d0 (jget d ''uuid'') \<or> param_eq d0 (jget d ''urn'')
                     \<or> param_eq d0 (jget d ''name'')) ds
      else filter (\<lambda>d. jget d ''name'' = JStr ''smartos'') ds)"

definition curImg65 :: "semver \<Rightarrow> req \<Rightarrow> req \<times> outcome" where
  "curImg65 sv r =
     (case datasets r of
        None \<Rightarrow> (r, Threw (TypeError ''Cannot read property 'filter' of undefined''))
      | Some ds \<Rightarrow>
          (case curImg65_matches r ds of
             [] \<Rightarrow> (r, Next)
           | a # bs \<Rightarrow>
               (case reduce_gte sv a bs of
                  Inl e \<Rightarrow> (r, Threw e)
                | Inr d \<Rightarrow> (r\<lparr>dataset := JObj d\<rparr>, Next))))"

text \<open>The \<^verbatim>\<open>for\<close> loop of \<^verbatim>\<open>curImg70\<close>: the element at which it breaks, if it does.\<close>

fun curImg70_scan :: "string option \<Rightarrow> jsobj list \<Rightarrow> jsobj option" where
  "curImg70_scan imageUUID [] = None"
| "curImg70_scan imageUUID (d # ds) =
     (if param_eq imageUUID (jget d ''uuid'') \<or> param_eq imageUUID (jget d ''urn'')
      then Some d
      else curImg70_scan imageUUID ds)"

definition curImg70 :: "req \<Rightarrow> req \<times> outcome" where
  "curImg70 r =
     (let imageUUID = param_or (param r ''image'') (param r ''dataset'') in
      if given imageUUID then
        (case datasets r of
           None \<Rightarrow> (r, Threw (TypeError ''Cannot read property 'length' of undefined''))
         | Some ds \<Rightarrow>
             (case curImg70_scan imageUUID ds of
                None \<Rightarrow> (r, Next)
              | Some d \<Rightarrow> (r\<lparr>dataset := JObj d\<rparr>, Next)))
      else (r, Next))"

text \<open>\<^verbatim>\<open>imageUUID && UUID_RE.test(imageUUID)\<close>\<close>

definition is_uuid_param :: "string option \<Rightarrow> bool" where
  "is_uuid_param v = (case v of None \<Rightarrow> False | Some x \<Rightarrow> x \<noteq> [] \<and> UUID_RE_test x)"

text \<open>\<^verbatim>\<open>load(req, res, next)\<close>: the preload middleware for images.  An array returned by
  the backend is truthy, so \<^verbatim>\<open>datasets || []\<close> is the array itself.\<close>

definition datasets_load :: "semver \<Rightarrow> sdc \<Rightarrow> req \<Rightarrow> req \<times> outcome" where
  "datasets_load sv s r0 =
     (if url r0 = ''/--ping'' then (r0, Next)
      else
        let r = r0\<lparr>dataset := JBool False\<rparr>;
            imageUUID = param_or (param r ''image'') (param r ''dataset'')
        in
        if is_uuid_param imageUUID then getImage s r
        else if contains ''/machines/'' (url r) then (r, Next)
        else if \<not> (contains ''/datasets'' (url r) \<or> contains ''/machines'' (url r)
                    \<or> contains ''/images'' (url r)) then (r, Next)
        else
          (case loadImages s r of
             Inl err \<Rightarrow> (r, NextErr err)
           | Inr ds \<Rightarrow>
               let r1 = r\<lparr>datasets := Some ds\<rparr> in
               (case loadDisabledImages s r1 of
                  Inl err2 \<Rightarrow> (r1, NextErr err2)
                | Inr imgs \<Rightarrow>
                    let r2 = r1\<lparr>datasets := Some (ds @ imgs)\<rparr> in
                    if test_6_5 (version r2) then curImg65 sv r2 else curImg70 r2)))"

text \<open>The \<^verbatim>\<open>forEach\<close> of \<^verbatim>\<open>list\<close>: each entity is translated and pushed; an exception
  thrown by a translation ends the loop.\<close>

fun translate_each :: "semver \<Rightarrow> req \<Rightarrow> jsobj list \<Rightarrow> error + jsobj list" where
  "translate_each sv r [] = Inr []"
| "translate_each sv r (d # ds) =
     (case datasets_translate sv r d of
        Inl e \<Rightarrow> Inl e
      | Inr t \<Rightarrow>
          (case translate_each sv r ds of
             Inl e \<Rightarrow> Inl e
           | Inr ts \<Rightarrow> Inr (t # ts)))"

text \<open>\<^verbatim>\<open>list(req, res, next)\<close> of \<^verbatim>\<open>datasets.js\<close>: the body passed to
  \<^verbatim>\<open>res.send\<close>, if any, and how the handler ends.\<close>

definition datasets_list :: "semver \<Rightarrow> req \<Rightarrow> jsobj list option \<times> outcome" where
  "datasets_list sv r =
     (case datasets r of
        None \<Rightarrow> (None, Threw (TypeError ''Cannot read property 'forEach' of undefined''))
      | Some ds \<Rightarrow>
          (case translate_each sv r ds of
             Inl e \<Rightarrow> (None, Threw e)
           | Inr ts \<Rightarrow>
               (Some (if test_6_5 (version r)
                      then filter (\<lambda>d. jget d ''urn'' \<noteq> JUndefined) ts
                      else ts),
                Next)))"

section \<open>A reference instance of the version library\<close>

text \<open>
  An instance of the \<open>semver\<close> parameter, used to run the model on examples.  It follows
  the library (strict mode, releases 2 and later, the ones that have \<^verbatim>\<open>semver.ltr\<close>) on the
  plain versions: a version is \<^verbatim>\<open>MAJOR.MINOR.PATCH\<close>, optionally prefixed by \<^verbatim>\<open>v\<close>, each
  component a decimal number without leading zeros; \<open>valid\<close> answers the version without
  the prefix and \<^verbatim>\<open>null\<close> on anything else (so \<^verbatim>\<open>1.0\<close> is not a version); \<open>gte\<close>
  compares component by component and throws a \<^verbatim>\<open>TypeError\<close> when an operand is
  \<^verbatim>\<open>null\<close>; a range is empty or \<^verbatim>\<open>*\<close> (any version), a tilde range
  \<^verbatim>\<open>~MAJOR.MINOR\<close>, or a single version.  Pre-release and build tags, surrounding white
  space and the other range forms of the library are outside this instance, which answers
  on them as on an invalid version or an unsatisfied range.
\<close>

definition digit_val :: "char \<Rightarrow> nat option" where
  "digit_val c =
     (if CHR ''0'' \<le> c \<and> c \<le> CHR ''9'' then Some (of_char c - of_char (CHR ''0'')) else None)"

fun digits_val :: "nat \<Rightarrow> string \<Rightarrow> nat option" where
  "digits_val acc [] = Some acc"
| "digits_val acc (c # cs) =
     (case digit_val c of None \<Rightarrow> None | Some d \<Rightarrow> digits_val (10 * acc + d) cs)"

definition parse_nat :: "string \<Rightarrow> nat option" where
  "parse_nat s =
     (case s of
        [] \<Rightarrow> None
      | c # cs \<Rightarrow> if c = CHR ''0'' \<and> cs \<noteq> [] then None else digits_val 0 s)"

fun split_dots :: "string \<Rightarrow> string list" where
  "split_dots [] = [[]]"
| "split_dots (c # cs) =
     (if c = CHR ''.'' then [] # split_dots cs
      else (case split_dots cs of [] \<Rightarrow> [[c]] | w # ws \<Rightarrow> (c # w) # ws))"

definition parse_components :: "string \<Rightarrow> nat list option" where
  "parse_components s =
     (let ps = map parse_nat (split_dots s)
      in if None \<in> set ps then None else Some (map the ps))"

definition parse_version :: "string \<Rightarrow> (nat \<times> nat \<times> nat) option" where
  "parse_version s =
     (case parse_components s of
        Some [a, b, c] \<Rightarrow> Some (a, b, c)
      | _ \<Rightarrow> None)"

definition triple_ge :: "nat \<times> nat \<times> nat \<Rightarrow> nat \<times> nat \<times> nat \<Rightarrow> bool" where
  "triple_ge p q =
     (case (p, q) of
        ((a, b, c), (a', b', c')) \<Rightarrow>
          a > a' \<or> (a = a' \<and> (b > b' \<or> (b = b' \<and> c \<ge> c'))))"

definition strip_v :: "string \<Rightarrow> string" where
  "strip_v s = (case s of c # cs \<Rightarrow> if c = CHR ''v'' then cs else s | [] \<Rightarrow> s)"

definition ref_valid :: "jsval \<Rightarrow> string option" where
  "ref_valid v =
     (case v of
        JStr s \<Rightarrow> (if parse_version (strip_v s) = None then None else Some (strip_v s))
      | _ \<Rightarrow> None)"

definition ref_gte :: "string option \<Rightarrow> string option \<Rightarrow> error + bool" where
  "ref_gte a b =
     (case (a, b) of
        (Some x, Some y) \<Rightarrow>
          (case (parse_version x, parse_version y) of
             (Some p, Some q) \<Rightarrow> Inr (triple_ge p q)
           | _ \<Rightarrow> Inl (TypeError ''Invalid Version''))
      | _ \<Rightarrow> Inl (TypeError ''Invalid Version''))"

definition ref_satisfies :: "string \<Rightarrow> string \<Rightarrow> bool" where
  "ref_satisfies v rng =
     (case parse_version v of
        None \<Rightarrow> False
      | Some (a, b, c) \<Rightarrow>
          rng = [] \<or> rng = ''*'' \<or> parse_version (strip_v rng) = Some (a, b, c) \<or>
          (case rng of
             t # rest \<Rightarrow> t = CHR ''~'' \<and> parse_components rest = Some [a, b]
           | [] \<Rightarrow> False))"

definition ref_semver :: semver where
  "ref_semver = \<lparr>valid = ref_valid, gte = ref_gte, satisfies = ref_satisfies\<rparr>"

section \<open>Properties of the version order\<close>

text \<open>Whether an entity carries a version the library accepts, and the comparison the
  reductions make between two entities.\<close>

definition has_valid_version :: "semver \<Rightarrow> jsobj \<Rightarrow> bool" where
  "has_valid_version sv a = (valid sv (jget a ''version'') \<noteq> None)"

definition version_ge :: "semver \<Rightarrow> jsobj \<Rightarrow> jsobj \<Rightarrow> bool" where
  "version_ge sv a b =
     (gte sv (valid sv (jget a ''version'')) (valid sv (jget b ''version'')) = Inr True)"

text \<open>What is assumed of the library: on valid versions \<open>gte\<close> does not throw and is a
  total preorder.\<close>

definition semver_ordered :: "semver \<Rightarrow> bool" where
  "semver_ordered sv =
     ((\<forall>x y. valid sv x \<noteq> None \<and> valid sv y \<noteq> None \<longrightarrow>
          (\<exists>g. gte sv (valid sv x) (valid sv y) = Inr g)) \<and>
      (\<forall>x y. valid sv x \<noteq> None \<and> valid sv y \<noteq> None \<longrightarrow>
          gte sv (valid sv x) (valid sv y) = Inr True \<or>
          gte sv (valid sv y) (valid sv x) = Inr True) \<and>
      (\<forall>x y z. gte sv (valid sv x) (valid sv y) = Inr True \<and>
          gte sv (valid sv y) (valid sv z) = Inr True \<longrightarrow>
          gte sv (valid sv x) (valid sv z) = Inr True))"

section \<open>Example data\<close>

text \<open>A request by the account \<^verbatim>\<open>admin\<close> with no parameters; the examples below vary it
  field by field.\<close>

definition example_req :: req where
  "example_req =
     \<lparr>url = ''/my/packages'', pathname = ''/my/packages'', req_method = ''GET'', params = [],
      version = ''*'', account_uuid = ''930896af-bf8c-48d4-885c-6573a94b1853'',
      account_login = ''admin'', accountMgmt = False, pkg = JUndefined, packages = None,
      dataset = JUndefined, datasets = None, bleedingEdgeFeatures = None,
      bleedingEdgeLoginWhitelist = None, max_packages_lifetime = 60\<rparr>"

text \<open>A package as the package backend stores it: identifier, name, version and default
  flag vary, the sizes are fixed.\<close>

definition pkg_entity :: "string \<Rightarrow> string \<Rightarrow> string \<Rightarrow> bool \<Rightarrow> jsobj" where
  "pkg_entity u n v d =
     [(''uuid'', JStr u), (''name'', JStr n), (''version'', JStr v),
      (''max_physical_memory'', JNum 1024), (''quota'', JNum 10240),
      (''max_swap'', JNum 2048), (''vcpus'', JNum 1), (''default'', JBool d),
      (''description'', JStr ''a package''), (''group'', JStr ''standard''),
      (''active'', JBool True)]"

definition small_pkg :: "string \<Rightarrow> jsobj" where
  "small_pkg v = pkg_entity ''7fc87f43-2def-4e6f-9f2c-ac5a4f4f6b1f'' ''small'' v False"

text \<open>The packages of the example backend: three versions of \<^verbatim>\<open>small\<close>, the newest in
  the middle, and two default packages.\<close>

definition small_packages :: "jsobj list" where
  "small_packages =
     [pkg_entity ''11111111-0000-0000-0000-000000000001'' ''small'' ''1.0.0'' False,
      pkg_entity ''11111111-0000-0000-0000-000000000002'' ''small'' ''1.1.0'' False,
      pkg_entity ''11111111-0000-0000-0000-000000000003'' ''small'' ''1.0.5'' False]"

definition example_packages :: "jsobj list" where
  "example_packages =
     small_packages @
     [pkg_entity ''11111111-0000-0000-0000-000000000004'' ''large'' ''2.0.0'' True,
      pkg_entity ''11111111-0000-0000-0000-000000000005'' ''large'' ''1.0.0'' True]"

text \<open>\<^verbatim>\<open>GET /my/packages/small\<close>: a package requested by name.\<close>

definition by_name_req :: req where
  "by_name_req =
     example_req\<lparr>url := ''/my/packages/small'', pathname := ''/my/packages/small'',
                  params := [(''account'', ''my''), (''package'', ''small'')]\<rparr>"

text \<open>An image as the image backend stores it; the legacy \<^verbatim>\<open>urn\<close> is optional.\<close>

definition img_entity :: "string \<Rightarrow> string \<Rightarrow> string \<Rightarrow> string \<Rightarrow> string option \<Rightarrow> jsobj" where
  "img_entity u n v st urn_opt =
     [(''uuid'', JStr u), (''name'', JStr n), (''version'', JStr v), (''os'', JStr ''smartos''),
      (''type'', JStr ''zone-dataset''), (''state'', JStr st)]
     @ (case urn_opt of None \<Rightarrow> [] | Some x \<Rightarrow> [(''urn'', JStr x)])"

text \<open>The images of the example backend: two releases of \<^verbatim>\<open>smartos\<close> published under
  one urn, the older one first; an image without a urn; a disabled image and a destroyed
  one.\<close>

definition smartos_images :: "jsobj list" where
  "smartos_images =
     [img_entity ''22222222-0000-0000-0000-000000000001'' ''smartos'' ''1.6.2'' ''active''
        (Some ''sdc:sdc:smartos:1.6''),
      img_entity ''22222222-0000-0000-0000-000000000002'' ''smartos'' ''1.6.3'' ''active''
        (Some ''sdc:sdc:smartos:1.6'')]"

definition active_images :: "jsobj list" where
  "active_images =
     smartos_images @
     [img_entity ''22222222-0000-0000-0000-000000000003'' ''base'' ''13.4.0'' ''active'' None]"

definition example_images :: "jsobj list" where
  "example_images =
     active_images @
     [img_entity ''22222222-0000-0000-0000-000000000004'' ''base'' ''1.0.0'' ''disabled'' None,
      img_entity ''22222222-0000-0000-0000-000000000005'' ''base'' ''0.9.0'' ''destroyed'' None]"

text \<open>The example backends: packages are filtered by name when the query names one;
  images are listed by state (active unless the query asks for the disabled ones) and
  fetched by identifier whatever their state.\<close>

definition example_sdc :: sdc where
  "example_sdc =
     \<lparr>papi_get = (\<lambda>u q.
         (case find (\<lambda>p. jget p ''uuid'' = JStr u) example_packages of
            None \<Rightarrow> Inl (ResourceNotFoundError (JStr u))
          | Some p \<Rightarrow> Inr p)),
      papi_list = (\<lambda>q.
         Inr (filter (\<lambda>p. jget q ''name'' = JUndefined \<or> jget p ''name'' = jget q ''name'')
                example_packages)),
      imgapi_getImage = (\<lambda>d.
         (case d of
            None \<Rightarrow> Inl (BackendError ''no identifier'')
          | Some u \<Rightarrow>
              (case find (\<lambda>i. jget i ''uuid'' = JStr u) example_images of
                 None \<Rightarrow> Inl (ResourceNotFoundError (JStr u))
               | Some i \<Rightarrow> Inr i))),
      imgapi_listImages = (\<lambda>q.
         Inr (filter (\<lambda>i. jget i ''state'' =
                            (if jget q ''state'' = JStr ''disabled''
                             then JStr ''disabled'' else JStr ''active''))
                example_images))\<rparr>"

text \<open>An image whose creation failed, carrying the backend's \<^verbatim>\<open>error\<close> object.\<close>

definition failed_image :: "string \<Rightarrow> string \<Rightarrow> jsobj" where
  "failed_image c m =
     img_entity ''22222222-0000-0000-0000-000000000006'' ''mine'' ''1.0.0'' ''failed'' None
     @ [(''error'', JObj [(''code'', JStr c), (''message'', JStr m)])]"

text \<open>\<^verbatim>\<open>GET /my/images/:image\<close>: an image requested by identifier.\<close>

definition image_req :: "string \<Rightarrow> req" where
  "image_req u =
     example_req\<lparr>url := ''/my/images/'' @ u, pathname := ''/my/images/'' @ u,
                  params := [(''account'', ''my''), (''image'', u)]\<rparr>"

text \<open>\<^verbatim>\<open>GET /my/datasets/:dataset\<close> with an identifier that is not a UUID, after the active
  images have been loaded into the candidate list.\<close>

definition dataset_req :: "string \<Rightarrow> req" where
  "dataset_req x =
     example_req\<lparr>url := ''/my/datasets/'' @ x, pathname := ''/my/datasets/'' @ x,
                  params := [(''account'', ''my''), (''dataset'', x)],
                  dataset := JBool False, datasets := Some active_images\<rparr>"

text \<open>\<^verbatim>\<open>POST /my/machines\<close> without an image parameter, after the active images have been
  loaded.\<close>

definition no_image_req :: req where
  "no_image_req =
     example_req\<lparr>url := ''/my/machines'', pathname := ''/my/machines'', req_method := ''POST'',
                  params := [(''account'', ''my'')],
                  dataset := JBool False, datasets := Some active_images\<rparr>"

text \<open>\<^verbatim>\<open>POST /my/machines/:machine?action=resize\<close> that names no package.\<close>

definition resize_req :: req where
  "resize_req =
     example_req\<lparr>url := ''/my/machines/33333333-0000-0000-0000-000000000001?action=resize'',
                  pathname := ''/my/machines/33333333-0000-0000-0000-000000000001'',
                  req_method := ''POST'',
                  params := [(''account'', ''my''),
                             (''machine'', ''33333333-0000-0000-0000-000000000001''),
                             (''action'', ''resize'')]\<rparr>"

text \<open>\<^verbatim>\<open>GET /my/datasets\<close> under a given protocol version.\<close>

definition list_datasets_req :: "string \<Rightarrow> req" where
  "list_datasets_req v =
     example_req\<lparr>url := ''/my/datasets'', pathname := ''/my/datasets'', version := v,
                  params := [(''account'', ''my'')]\<rparr>"

text \<open>\<^verbatim>\<open>GET /my/packages/:package\<close> with the UUID of the oldest \<^verbatim>\<open>small\<close> package.\<close>

definition by_uuid_req :: req where
  "by_uuid_req =
     example_req\<lparr>url := ''/my/packages/11111111-0000-0000-0000-000000000001'',
                  pathname := ''/my/packages/11111111-0000-0000-0000-000000000001'',
                  params := [(''account'', ''my''),
                             (''package'', ''11111111-0000-0000-0000-000000000001'')]\<rparr>"

text \<open>The same listing request once the preload has stored the active images.\<close>

definition loaded_datasets_req :: "string \<Rightarrow> req" where
  "loaded_datasets_req v =
     (list_datasets_req v)\<lparr>dataset := JBool False, datasets := Some active_images\<rparr>"

text \<open>The state of the outside world before a request: an empty, working cache, no backend
  query made and nothing sent.\<close>

definition fresh_world :: world where
  "fresh_world =
     \<lparr>store = \<lparr>entries = (\<lambda>k. None), fault = None, lookups = [], writes = []\<rparr>,
      papi_queries = [], response = None, role_tags = False\<rparr>"

text \<open>\<^verbatim>\<open>GET /my/packages\<close> with the given query parameters.\<close>

definition list_packages_req :: "(string \<times> string) list \<Rightarrow> req" where
  "list_packages_req q = example_req\<lparr>params := (''account'', ''my'') # q\<rparr>"

text \<open>The backend filter of an unfiltered package listing by the example account.\<close>

definition list_packages_opts :: jsobj where
  "list_packages_opts =
     [(''active'', JBool True), (''owner_uuids'', JStr ''930896af-bf8c-48d4-885c-6573a94b1853'')]"

text \<open>Two packages named \<^verbatim>\<open>small\<close> of which the first carries \<^verbatim>\<open>1.0\<close>, which is not a
  semantic version, and a package backend that holds them.\<close>

definition mixed_small_packages :: "jsobj list" where
  "mixed_small_packages =
     [pkg_entity ''11111111-0000-0000-0000-000000000006'' ''small'' ''1.0'' False,
      pkg_entity ''11111111-0000-0000-0000-000000000007'' ''small'' ''1.0.0'' False]"

definition mixed_sdc :: sdc where
  "mixed_sdc =
     example_sdc\<lparr>papi_list := (\<lambda>q.
        Inr (filter (\<lambda>p. jget q ''name'' = JUndefined \<or> jget p ''name'' = jget q ''name'')
               mixed_small_packages))\<rparr>"

text \<open>Two images named \<^verbatim>\<open>smartos\<close> of which the second carries \<^verbatim>\<open>1.6\<close>, which is not a
  semantic version.\<close>

definition mixed_smartos_images :: "jsobj list" where
  "mixed_smartos_images =
     [img_entity ''22222222-0000-0000-0000-000000000001'' ''smartos'' ''1.6.2'' ''active''
        (Some ''sdc:sdc:smartos:1.6''),
      img_entity ''22222222-0000-0000-0000-000000000007'' ''smartos'' ''1.6'' ''active'' None]"

text \<open>The world before a request when the cache store fails, and a package backend that
  fails.\<close>

definition faulty_world :: world where
  "faulty_world =
     fresh_world\<lparr>store := (store fresh_world)\<lparr>fault := Some (CacheError ''ECONNREFUSED'')\<rparr>\<rparr>"

definition failing_sdc :: sdc where
  "failing_sdc = example_sdc\<lparr>papi_list := (\<lambda>q. Inl (BackendError ''papi unavailable''))\<rparr>"

section \<open>Basic facts about objects\<close>

lemma map_of_set_prop: "map_of (set_prop obj k v) = (map_of obj)(k \<mapsto> v)"
  by (induction obj) (auto simp: fun_eq_iff)

lemma jget_set_prop: "jget (set_prop obj k v) k' = (if k' = k then v else jget obj k')"
  by (simp add: jget_def map_of_set_prop)

lemma hasOwnProperty_set_prop:
  "hasOwnProperty (set_prop obj k v) k' = (k' = k \<or> hasOwnProperty obj k')"
  by (simp add: hasOwnProperty_def map_of_set_prop)

lemma jget_Cons: "jget ((k, v) # obj) k' = (if k' = k then v else jget obj k')"
  by (simp add: jget_def)

lemma jget_Nil: "jget [] k = JUndefined"
  by (simp add: jget_def)

lemma hasOwnProperty_Cons:
  "hasOwnProperty ((k, v) # obj) k' = (k' = k \<or> hasOwnProperty obj k')"
  by (auto simp add: hasOwnProperty_def)

lemma hasOwnProperty_Nil: "\<not> hasOwnProperty [] k"
  by (simp add: hasOwnProperty_def)

section \<open>Translation of packages by protocol version\<close>

text \<open>
  C4.  Under a legacy 6.5 protocol version (the version string matches \<^verbatim>\<open>/6\.5/\<close>) the
  translated package has exactly the six base fields: \<^verbatim>\<open>id\<close>, \<^verbatim>\<open>version\<close>,
  \<^verbatim>\<open>description\<close> and \<^verbatim>\<open>group\<close> are absent whatever the raw entity carries.  Under any
  other version the translated package has \<^verbatim>\<open>id\<close> and \<^verbatim>\<open>version\<close>, holding the raw
  entity's \<^verbatim>\<open>uuid\<close> and \<^verbatim>\<open>version\<close>, and has \<^verbatim>\<open>description\<close> and \<^verbatim>\<open>group\<close> with the
  raw values whenever those are non-empty (truthy).
\<close>

theorem packages_translate_version_fields:
  "(test_6_5 (version r) \<longrightarrow>
      map fst (packages_translate r raw) =
        [''name'', ''memory'', ''disk'', ''swap'', ''vcpus'', ''default''] \<and>
      \<not> hasOwnProperty (packages_translate r raw) ''id'' \<and>
      \<not> hasOwnProperty (packages_translate r raw) ''version'' \<and>
      \<not> hasOwnProperty (packages_translate r raw) ''description'' \<and>
      \<not> hasOwnProperty (packages_translate r raw) ''group'') \<and>
   (\<not> test_6_5 (version r) \<longrightarrow>
      hasOwnProperty (packages_translate r raw) ''id'' \<and>
      jget (packages_translate r raw) ''id'' = jget raw ''uuid'' \<and>
      hasOwnProperty (packages_translate r raw) ''version'' \<and>
      jget (packages_translate r raw) ''version'' = jget raw ''version'' \<and>
      (truthy (jget raw ''description'') \<longrightarrow>
         hasOwnProperty (packages_translate r raw) ''description'' \<and>
         jget (packages_translate r raw) ''description'' = jget raw ''description'') \<and>
      (truthy (jget raw ''group'') \<longrightarrow>
         hasOwnProperty (packages_translate r raw) ''group'' \<and>
         jget (packages_translate r raw) ''group'' = jget raw ''group''))"
  by (simp add: packages_translate_def Let_def jget_set_prop hasOwnProperty_set_prop
        jget_Cons hasOwnProperty_Cons hasOwnProperty_Nil)

theorem packages_translate_version_fields_witness:
  "test_6_5 (version (example_req\<lparr>version := ''~6.5''\<rparr>)) \<and>
   jget (small_pkg ''1.0.0'') ''uuid'' = JStr ''7fc87f43-2def-4e6f-9f2c-ac5a4f4f6b1f'' \<and>
   \<not> hasOwnProperty
        (packages_translate (example_req\<lparr>version := ''~6.5''\<rparr>) (small_pkg ''1.0.0'')) ''id'' \<and>
   \<not> hasOwnProperty
        (packages_translate (example_req\<lparr>version := ''~6.5''\<rparr>) (small_pkg ''1.0.0''))
        ''version'' \<and>
   \<not> test_6_5 (version (example_req\<lparr>version := ''~7.0''\<rparr>)) \<and>
   truthy (jget (small_pkg ''1.0.0'') ''description'') \<and>
   truthy (jget (small_pkg ''1.0.0'') ''group'') \<and>
   jget (packages_translate (example_req\<lparr>version := ''~7.0''\<rparr>) (small_pkg ''1.0.0'')) ''id''
     = JStr ''7fc87f43-2def-4e6f-9f2c-ac5a4f4f6b1f'' \<and>
   jget (packages_translate (example_req\<lparr>version := ''~7.0''\<rparr>) (small_pkg ''1.0.0'')) ''group''
     = JStr ''standard''"
  using packages_translate_version_fields
          [of "example_req\<lparr>version := ''~6.5''\<rparr>" "small_pkg ''1.0.0''"]
        packages_translate_version_fields
          [of "example_req\<lparr>version := ''~7.0''\<rparr>" "small_pkg ''1.0.0''"]
  by (simp add: test_6_5_def small_pkg_def pkg_entity_def jget_def)

section \<open>The greatest version wins\<close>

lemma semver_ordered_refl:
  "semver_ordered sv \<Longrightarrow> has_valid_version sv a \<Longrightarrow> version_ge sv a a"
  unfolding semver_ordered_def has_valid_version_def version_ge_def by blast

lemma semver_ordered_total:
  "semver_ordered sv \<Longrightarrow> has_valid_version sv a \<Longrightarrow> has_valid_version sv b \<Longrightarrow>
     \<not> version_ge sv a b \<Longrightarrow>
     gte sv (valid sv (jget a ''version'')) (valid sv (jget b ''version'')) = Inr False \<and>
     version_ge sv b a"
proof -
  assume o: "semver_ordered sv" and a: "has_valid_version sv a" and b: "has_valid_version sv b"
    and n: "\<not> version_ge sv a b"
  from o a b obtain g where g: "gte sv (valid sv (jget a ''version'')) (valid sv (jget b ''version'')) = Inr g"
    unfolding semver_ordered_def has_valid_version_def by blast
  with n have "g = False" unfolding version_ge_def by auto
  moreover from o a b n have "version_ge sv b a"
    unfolding semver_ordered_def has_valid_version_def version_ge_def by blast
  ultimately show ?thesis using g by simp
qed

lemma semver_ordered_trans:
  "semver_ordered sv \<Longrightarrow> version_ge sv a b \<Longrightarrow> version_ge sv b c \<Longrightarrow> version_ge sv a c"
  unfolding semver_ordered_def version_ge_def by blast

lemma reduce_gte_greatest:
  assumes o: "semver_ordered sv"
  shows "has_valid_version sv a \<Longrightarrow> \<forall>b \<in> set bs. has_valid_version sv b \<Longrightarrow>
     \<exists>m. reduce_gte sv a bs = Inr m \<and> m \<in> set (a # bs) \<and>
         (\<forall>q \<in> set (a # bs). version_ge sv m q)"
proof (induction bs arbitrary: a)
  case Nil
  then show ?case using o by (simp add: semver_ordered_refl)
next
  case (Cons b bs)
  have vb: "has_valid_version sv b" and vbs: "\<forall>c \<in> set bs. has_valid_version sv c"
    using Cons.prems(2) by simp_all
  show ?case
  proof (cases "version_ge sv a b")
    case True
    then have step: "reduce_gte sv a (b # bs) = reduce_gte sv a bs"
      by (simp add: version_ge_def)
    from Cons.IH [OF Cons.prems(1) vbs] obtain m where
      m: "reduce_gte sv a bs = Inr m" "m \<in> set (a # bs)" "\<forall>q \<in> set (a # bs). version_ge sv m q"
      by blast
    have "version_ge sv m b"
      using m(3) True semver_ordered_trans [OF o] by auto
    with m step show ?thesis by auto
  next
    case False
    from semver_ordered_total [OF o Cons.prems(1) vb False]
    have f: "gte sv (valid sv (jget a ''version'')) (valid sv (jget b ''version'')) = Inr False"
      and ba: "version_ge sv b a" by simp_all
    then have step: "reduce_gte sv a (b # bs) = reduce_gte sv b bs" by simp
    from Cons.IH [OF vb vbs] obtain m where
      m: "reduce_gte sv b bs = Inr m" "m \<in> set (b # bs)" "\<forall>q \<in> set (b # bs). version_ge sv m q"
      by blast
    have "version_ge sv m a"
      using m(3) ba semver_ordered_trans [OF o] by auto
    with m step show ?thesis by auto
  qed
qed

lemma parse_version_triple_total: "triple_ge p q \<or> triple_ge q p"
  by (cases p; cases q) (auto simp: triple_ge_def)

lemma triple_ge_trans: "triple_ge p q \<Longrightarrow> triple_ge q t \<Longrightarrow> triple_ge p t"
  by (cases p; cases q; cases t) (auto simp: triple_ge_def)

lemma ref_valid_Some: "ref_valid x \<noteq> None \<Longrightarrow> \<exists>s p. ref_valid x = Some s \<and> parse_version s = Some p"
  by (auto simp: ref_valid_def split: jsval.splits if_splits)

lemma ref_gte_True:
  "ref_gte a b = Inr True \<Longrightarrow>
     \<exists>x y p q. a = Some x \<and> b = Some y \<and> parse_version x = Some p \<and> parse_version y = Some q \<and> triple_ge p q"
  by (auto simp: ref_gte_def split: option.splits)

lemma ref_semver_ordered: "semver_ordered ref_semver"
  unfolding semver_ordered_def
proof (intro conjI allI impI)
  fix x y assume "valid ref_semver x \<noteq> None \<and> valid ref_semver y \<noteq> None"
  then obtain s p t q where *: "ref_valid x = Some s" "parse_version s = Some p"
       "ref_valid y = Some t" "parse_version t = Some q"
    using ref_valid_Some by (fastforce simp: ref_semver_def)
  then show "\<exists>g. gte ref_semver (valid ref_semver x) (valid ref_semver y) = Inr g"
    by (simp add: ref_semver_def ref_gte_def)
  show "gte ref_semver (valid ref_semver x) (valid ref_semver y) = Inr True \<or>
        gte ref_semver (valid ref_semver y) (valid ref_semver x) = Inr True"
    using * parse_version_triple_total [of p q] by (auto simp add: ref_semver_def ref_gte_def)
next
  fix x y z
  assume "gte ref_semver (valid ref_semver x) (valid ref_semver y) = Inr True \<and>
          gte ref_semver (valid ref_semver y) (valid ref_semver z) = Inr True"
  then have a: "ref_gte (ref_valid x) (ref_valid y) = Inr True"
    and b: "ref_gte (ref_valid y) (ref_valid z) = Inr True" by (simp_all add: ref_semver_def)
  from ref_gte_True [OF a] ref_gte_True [OF b]
  show "gte ref_semver (valid ref_semver x) (valid ref_semver z) = Inr True"
    by (auto simp: ref_semver_def ref_gte_def dest: triple_ge_trans)
qed

text \<open>
  C1.  A package requested by name (the route parameter is present, not empty and not
  UUID-shaped): when the backend answers the by-name query with no package, the
  selection stays absent (\<^verbatim>\<open>false\<close>) and the handler continues without error; when it
  answers with a non-empty list of packages every one of which has a valid version, the
  selected package is one of them and its version is greater than or equal to the
  version of every package in the list, under the library's comparison of valid
  versions.
\<close>

theorem loadPackages_by_name_newest:
  assumes "semver_ordered sv"
    and "url r \<noteq> ''/--ping''"
    and "\<not> ends_with ''/packages'' (pathname r)"
    and "param r ''package'' = Some n" and "n \<noteq> []" and "\<not> UUID_RE_test n"
    and "papi_list s [(''name'', JStr n), (''owner_uuids'', JStr (account_uuid r)),
                      (''active'', JBool True)] = Inr pkgs"
    and "\<forall>p \<in> set pkgs. has_valid_version sv p"
  shows "(pkgs = [] \<longrightarrow> loadPackages sv s r = (r\<lparr>pkg := JBool False\<rparr>, Next)) \<and>
         (pkgs \<noteq> [] \<longrightarrow>
            (\<exists>m. loadPackages sv s r = (r\<lparr>pkg := JObj m\<rparr>, Next) \<and> m \<in> set pkgs \<and>
                 (\<forall>q \<in> set pkgs. version_ge sv m q)))"
proof -
  have run: "loadPackages sv s r = select_newest sv (r\<lparr>pkg := JBool False\<rparr>) pkgs"
    using assms(2-7) by (simp add: loadPackages_def loadPackages_named_def param_def Let_def)
  show ?thesis
  proof (cases pkgs)
    case Nil
    then show ?thesis using run by (simp add: select_newest_def)
  next
    case (Cons a bs)
    with assms(8) have "has_valid_version sv a" "\<forall>b \<in> set bs. has_valid_version sv b"
      by simp_all
    from reduce_gte_greatest [OF assms(1) this] obtain m where
      m: "reduce_gte sv a bs = Inr m" "m \<in> set (a # bs)" "\<forall>q \<in> set (a # bs). version_ge sv m q"
      by blast
    then show ?thesis using run Cons by (auto simp add: select_newest_def)
  qed
qed

theorem loadPackages_by_name_newest_witness:
  "\<exists>m. loadPackages ref_semver example_sdc by_name_req = (by_name_req\<lparr>pkg := JObj m\<rparr>, Next) \<and>
       m \<in> set small_packages \<and> (\<forall>q \<in> set small_packages. version_ge ref_semver m q)"
proof -
  have h2: "url by_name_req \<noteq> ''/--ping''"
    and h3: "\<not> ends_with ''/packages'' (pathname by_name_req)"
    and h4: "param by_name_req ''package'' = Some ''small''"
    and h5: "''small'' \<noteq> []"
    by (simp_all add: by_name_req_def example_req_def param_def ends_with_def)
  have h6: "\<not> UUID_RE_test ''small''"
    by code_simp
  have h7: "papi_list example_sdc [(''name'', JStr ''small''),
               (''owner_uuids'', JStr (account_uuid by_name_req)), (''active'', JBool True)]
            = Inr small_packages"
    by (simp add: example_sdc_def example_packages_def small_packages_def pkg_entity_def jget_def)
  have h8: "\<forall>p \<in> set small_packages. has_valid_version ref_semver p"
    by code_simp
  have "small_packages \<noteq> []"
    by (simp add: small_packages_def)
  with loadPackages_by_name_newest [OF ref_semver_ordered h2 h3 h4 h5 h6 h7 h8]
  show ?thesis by blast
qed

text \<open>The example of two packages named \<^verbatim>\<open>small\<close>, extended by a third: version
  \<^verbatim>\<open>1.1.0\<close> is selected.\<close>

lemma loadPackages_by_name_example:
  "loadPackages ref_semver example_sdc by_name_req =
     (by_name_req\<lparr>pkg := JObj (pkg_entity ''11111111-0000-0000-0000-000000000002''
                                   ''small'' ''1.1.0'' False)\<rparr>, Next)"
  by code_simp

text \<open>The comparison is made on the results of \<open>valid\<close>; once it throws, the reduction
  throws.\<close>

lemma reduce_gte_throws:
  "gte sv (valid sv (jget a ''version'')) (valid sv (jget b ''version'')) = Inl e \<Longrightarrow>
     reduce_gte sv a (b # bs) = Inl e"
  by simp

text \<open>When the backend answers the by-name query with a package whose version is not a
  semantic version, the comparison receives \<^verbatim>\<open>null\<close> and throws: nothing is selected and
  the exception escapes the callback.\<close>

theorem loadPackages_invalid_version_throws:
  "papi_list mixed_sdc [(''name'', JStr ''small''),
       (''owner_uuids'', JStr (account_uuid by_name_req)), (''active'', JBool True)]
     = Inr mixed_small_packages \<and>
   mixed_small_packages \<noteq> [] \<and>
   loadPackages ref_semver mixed_sdc by_name_req
     = (by_name_req\<lparr>pkg := JBool False\<rparr>, Threw (TypeError ''Invalid Version''))"
  by code_simp

section \<open>Translation of image errors\<close>

text \<open>
  C8.  For an image whose \<^verbatim>\<open>error\<close> field holds a value (neither \<^verbatim>\<open>undefined\<close> nor
  \<^verbatim>\<open>null\<close>): when the error's code is one of \<^verbatim>\<open>PrepareImageDidNotRun\<close>,
  \<^verbatim>\<open>VmHasNoOrigin\<close> and \<^verbatim>\<open>NotSupported\<close>, the translation is the object with that
  code and the error's message; for every other code it is the fixed pair of the code
  \<^verbatim>\<open>InternalError\<close> and the generic message, whatever the backend error holds.
\<close>

theorem errorObjFromImgapiImage_codes:
  assumes "jget img ''error'' \<noteq> JUndefined" and "jget img ''error'' \<noteq> JNull"
  shows "(\<forall>c. (c = ''PrepareImageDidNotRun'' \<or> c = ''VmHasNoOrigin'' \<or> c = ''NotSupported'') \<and>
              get_prop (jget img ''error'') ''code'' = JStr c \<longrightarrow>
              errorObjFromImgapiImage img =
                Inr [(''code'', JStr c),
                     (''message'', get_prop (jget img ''error'') ''message'')]) \<and>
         (get_prop (jget img ''error'') ''code'' \<noteq> JStr ''PrepareImageDidNotRun'' \<and>
          get_prop (jget img ''error'') ''code'' \<noteq> JStr ''VmHasNoOrigin'' \<and>
          get_prop (jget img ''error'') ''code'' \<noteq> JStr ''NotSupported'' \<longrightarrow>
              errorObjFromImgapiImage img =
                Inr [(''code'', JStr ''InternalError''),
                     (''message'',
                      JStr ''an unexpected error occurred (Contact support for assistance.)'')])"
  using assms by (auto simp add: errorObjFromImgapiImage_def Let_def)

theorem errorObjFromImgapiImage_codes_witness:
  "jget (failed_image ''VmHasNoOrigin'' ''vm has no origin'') ''error'' \<noteq> JUndefined \<and>
   jget (failed_image ''VmHasNoOrigin'' ''vm has no origin'') ''error'' \<noteq> JNull \<and>
   errorObjFromImgapiImage (failed_image ''VmHasNoOrigin'' ''vm has no origin'') =
     Inr [(''code'', JStr ''VmHasNoOrigin''), (''message'', JStr ''vm has no origin'')] \<and>
   jget (failed_image ''ENOSPC'' ''zfs send: /zones/x full'') ''error'' \<noteq> JUndefined \<and>
   jget (failed_image ''ENOSPC'' ''zfs send: /zones/x full'') ''error'' \<noteq> JNull \<and>
   errorObjFromImgapiImage (failed_image ''ENOSPC'' ''zfs send: /zones/x full'') =
     Inr [(''code'', JStr ''InternalError''),
          (''message'', JStr ''an unexpected error occurred (Contact support for assistance.)'')]"
proof -
  have e1: "jget (failed_image ''VmHasNoOrigin'' ''vm has no origin'') ''error''
              = JObj [(''code'', JStr ''VmHasNoOrigin''), (''message'', JStr ''vm has no origin'')]"
    and e2: "jget (failed_image ''ENOSPC'' ''zfs send: /zones/x full'') ''error''
              = JObj [(''code'', JStr ''ENOSPC''), (''message'', JStr ''zfs send: /zones/x full'')]"
    by (simp_all add: failed_image_def img_entity_def jget_def)
  show ?thesis
    using errorObjFromImgapiImage_codes [of "failed_image ''VmHasNoOrigin'' ''vm has no origin''"]
          errorObjFromImgapiImage_codes [of "failed_image ''ENOSPC'' ''zfs send: /zones/x full''"]
    by (simp add: e1 e2 jget_Cons jget_Nil)
qed

section \<open>Fetching one image by identifier\<close>

text \<open>
  C6.  An image requested by a UUID-shaped identifier and found by the backend: when its
  state is \<^verbatim>\<open>destroyed\<close> the preload ends with a not-found error and the selection stays
  absent (\<^verbatim>\<open>false\<close>); in every other state, \<^verbatim>\<open>disabled\<close> included, the image becomes
  the selected dataset and the handler continues.
\<close>

theorem load_image_by_uuid_state:
  assumes "url r \<noteq> ''/--ping''"
    and "is_uuid_param (param_or (param r ''image'') (param r ''dataset''))"
    and "loadImage s r = Inr img"
  shows "(jget img ''state'' = JStr ''destroyed'' \<longrightarrow>
            datasets_load sv s r =
              (r\<lparr>dataset := JBool False\<rparr>,
               NextErr (ResourceNotFoundError (jget img ''uuid'')))) \<and>
         (jget img ''state'' \<noteq> JStr ''destroyed'' \<longrightarrow>
            datasets_load sv s r = (r\<lparr>dataset := JObj img\<rparr>, Next))"
  using assms
  by (simp add: datasets_load_def getImage_def loadImage_def param_def Let_def)

theorem load_image_by_uuid_state_witness:
  "datasets_load ref_semver example_sdc (image_req ''22222222-0000-0000-0000-000000000005'') =
     ((image_req ''22222222-0000-0000-0000-000000000005'')\<lparr>dataset := JBool False\<rparr>,
      NextErr (ResourceNotFoundError (JStr ''22222222-0000-0000-0000-000000000005''))) \<and>
   datasets_load ref_semver example_sdc (image_req ''22222222-0000-0000-0000-000000000003'') =
     ((image_req ''22222222-0000-0000-0000-000000000003'')
        \<lparr>dataset := JObj (active_images ! 2)\<rparr>, Next)"
proof -
  let ?r = "image_req ''22222222-0000-0000-0000-000000000005''"
  let ?img = "img_entity ''22222222-0000-0000-0000-000000000005'' ''base'' ''0.9.0''
                ''destroyed'' None"
  let ?a = "image_req ''22222222-0000-0000-0000-000000000003''"
  have h1: "url ?r \<noteq> ''/--ping''" and a1: "url ?a \<noteq> ''/--ping''"
    by (simp_all add: image_req_def example_req_def)
  have h2: "is_uuid_param (param_or (param ?r ''image'') (param ?r ''dataset''))"
    and a2: "is_uuid_param (param_or (param ?a ''image'') (param ?a ''dataset''))"
    by code_simp+
  have h3: "loadImage example_sdc ?r = Inr ?img"
    and a3: "loadImage example_sdc ?a = Inr (active_images ! 2)"
    by code_simp+
  have h4: "jget ?img ''state'' = JStr ''destroyed''"
    and h5: "jget ?img ''uuid'' = JStr ''22222222-0000-0000-0000-000000000005''"
    and a4: "jget (active_images ! 2) ''state'' \<noteq> JStr ''destroyed''"
    by code_simp+
  show ?thesis
    using load_image_by_uuid_state [OF h1 h2 h3, of ref_semver]
          load_image_by_uuid_state [OF a1 a2 a3, of ref_semver]
    by (simp add: h4 h5 a4)
qed

text \<open>A disabled image requested by its UUID is not answered with not-found: it is
  selected.\<close>

theorem load_disabled_image_exposed:
  "jget (img_entity ''22222222-0000-0000-0000-000000000004'' ''base'' ''1.0.0'' ''disabled'' None)
     ''state'' = JStr ''disabled'' \<and>
   imgapi_getImage example_sdc (Some ''22222222-0000-0000-0000-000000000004'') =
     Inr (img_entity ''22222222-0000-0000-0000-000000000004'' ''base'' ''1.0.0'' ''disabled''
            None) \<and>
   datasets_load ref_semver example_sdc (image_req ''22222222-0000-0000-0000-000000000004'') =
     ((image_req ''22222222-0000-0000-0000-000000000004'')
        \<lparr>dataset := JObj (img_entity ''22222222-0000-0000-0000-000000000004'' ''base''
                            ''1.0.0'' ''disabled'' None)\<rparr>, Next)"
  by code_simp

section \<open>Selecting the current image\<close>

lemma curImg70_scan_first:
  "i < length ds \<Longrightarrow>
   param_eq p (jget (ds ! i) ''uuid'') \<or> param_eq p (jget (ds ! i) ''urn'') \<Longrightarrow>
   \<forall>j < i. \<not> (param_eq p (jget (ds ! j) ''uuid'') \<or> param_eq p (jget (ds ! j) ''urn'')) \<Longrightarrow>
   curImg70_scan p ds = Some (ds ! i)"
proof (induction ds arbitrary: i)
  case Nil
  then show ?case by simp
next
  case (Cons d ds)
  show ?case
  proof (cases i)
    case 0
    with Cons.prems(2) show ?thesis by simp
  next
    case (Suc k)
    with Cons.prems(3) have nd: "\<not> (param_eq p (jget d ''uuid'') \<or> param_eq p (jget d ''urn''))"
      by fastforce
    have "curImg70_scan p ds = Some (ds ! k)"
    proof (rule Cons.IH)
      show "k < length ds" using Cons.prems(1) Suc by simp
      show "param_eq p (jget (ds ! k) ''uuid'') \<or> param_eq p (jget (ds ! k) ''urn'')"
        using Cons.prems(2) Suc by simp
      show "\<forall>j<k. \<not> (param_eq p (jget (ds ! j) ''uuid'') \<or> param_eq p (jget (ds ! j) ''urn''))"
      proof (intro allI impI)
        fix j assume "j < k"
        then have "Suc j < i" using Suc by simp
        with Cons.prems(3) show "\<not> (param_eq p (jget (ds ! j) ''uuid'') \<or> param_eq p (jget (ds ! j) ''urn''))"
          by fastforce
      qed
    qed
    with nd Suc show ?thesis by simp
  qed
qed

lemma curImg70_scan_none:
  "\<forall>d \<in> set ds. \<not> (param_eq p (jget d ''uuid'') \<or> param_eq p (jget d ''urn'')) \<Longrightarrow>
   curImg70_scan p ds = None"
  by (induction ds) auto

lemma select_by_reduce:
  assumes "semver_ordered sv" and "ms \<noteq> []" and "\<forall>m \<in> set ms. has_valid_version sv m"
  shows "\<exists>m. (case ms of [] \<Rightarrow> (r, Next)
              | a # bs \<Rightarrow> (case reduce_gte sv a bs of Inl e \<Rightarrow> (r, Threw e)
                            | Inr d \<Rightarrow> (r\<lparr>dataset := JObj d\<rparr>, Next)))
             = (r\<lparr>dataset := JObj m\<rparr>, Next) \<and> m \<in> set ms \<and>
             (\<forall>q \<in> set ms. version_ge sv m q)"
proof (cases ms)
  case Nil
  with assms(2) show ?thesis by simp
next
  case (Cons a bs)
  with assms(3) have "has_valid_version sv a" "\<forall>b \<in> set bs. has_valid_version sv b"
    by simp_all
  from reduce_gte_greatest [OF assms(1) this] obtain m where
    "reduce_gte sv a bs = Inr m" "m \<in> set (a # bs)" "\<forall>q \<in> set (a # bs). version_ge sv m q"
    by blast
  then show ?thesis using Cons by auto
qed

lemma active_images_valid: "\<forall>m \<in> set active_images. has_valid_version ref_semver m"
  by code_simp

text \<open>
  C5.  Given a candidate list and an identifier parameter (\<open>x\<close> as the legacy function
  reads it, \<open>y\<close> as the modern one does; they are the same when one parameter is given):
  the legacy function \<^verbatim>\<open>curImg65\<close> keeps the candidates whose \<^verbatim>\<open>uuid\<close>, \<^verbatim>\<open>urn\<close> or
  \<^verbatim>\<open>name\<close> equals the parameter, selects nothing when there is none, and otherwise,
  when every one of them has a valid version, selects one of them whose version is
  greater than or equal to all of theirs.  The modern function \<^verbatim>\<open>curImg70\<close> selects nothing when no candidate's
  \<^verbatim>\<open>uuid\<close> or \<^verbatim>\<open>urn\<close> equals the parameter, whatever the names are, and otherwise
  selects the first candidate in list order whose \<^verbatim>\<open>uuid\<close> or \<^verbatim>\<open>urn\<close> equals it,
  whatever the versions of the later candidates.
\<close>

theorem curImg65_curImg70_diverge:
  assumes "semver_ordered sv" and "datasets r = Some ds"
    and "param_or (param r ''dataset'') (param r ''image'') = Some x" and "x \<noteq> []"
    and "param_or (param r ''image'') (param r ''dataset'') = Some y" and "y \<noteq> []"
    and "ms = filter (\<lambda>d. jget d ''uuid'' = JStr x \<or> jget d ''urn'' = JStr x
                          \<or> jget d ''name'' = JStr x) ds"
  shows "(ms = [] \<longrightarrow> curImg65 sv r = (r, Next)) \<and>
         (ms \<noteq> [] \<and> (\<forall>m \<in> set ms. has_valid_version sv m) \<longrightarrow>
            (\<exists>m. curImg65 sv r = (r\<lparr>dataset := JObj m\<rparr>, Next) \<and> m \<in> set ms \<and>
                 (\<forall>q \<in> set ms. version_ge sv m q))) \<and>
         ((\<forall>d \<in> set ds. jget d ''uuid'' \<noteq> JStr y \<and> jget d ''urn'' \<noteq> JStr y) \<longrightarrow>
            curImg70 r = (r, Next)) \<and>
         (\<forall>i < length ds.
            (jget (ds ! i) ''uuid'' = JStr y \<or> jget (ds ! i) ''urn'' = JStr y) \<and>
            (\<forall>j < i. jget (ds ! j) ''uuid'' \<noteq> JStr y \<and> jget (ds ! j) ''urn'' \<noteq> JStr y) \<longrightarrow>
            curImg70 r = (r\<lparr>dataset := JObj (ds ! i)\<rparr>, Next))"
proof -
  have m65: "curImg65_matches r ds = ms"
    using assms(3,4,7) by (simp add: curImg65_matches_def given_def param_eq_def)
  have legacy_none: "ms = [] \<longrightarrow> curImg65 sv r = (r, Next)"
    using m65 assms(2) by (simp add: curImg65_def)
  have legacy_some: "ms \<noteq> [] \<and> (\<forall>m \<in> set ms. has_valid_version sv m) \<longrightarrow>
      (\<exists>m. curImg65 sv r = (r\<lparr>dataset := JObj m\<rparr>, Next) \<and> m \<in> set ms \<and>
           (\<forall>q \<in> set ms. version_ge sv m q))"
  proof
    assume a: "ms \<noteq> [] \<and> (\<forall>m \<in> set ms. has_valid_version sv m)"
    then have "ms \<noteq> []" and "\<forall>m \<in> set ms. has_valid_version sv m" by simp_all
    from select_by_reduce [OF assms(1) this, of r]
    show "\<exists>m. curImg65 sv r = (r\<lparr>dataset := JObj m\<rparr>, Next) \<and> m \<in> set ms \<and>
           (\<forall>q \<in> set ms. version_ge sv m q)"
      using m65 assms(2) by (simp add: curImg65_def)
  qed
  have g: "given (Some y)" using assms(6) by (simp add: given_def)
  have modern_none: "(\<forall>d \<in> set ds. jget d ''uuid'' \<noteq> JStr y \<and> jget d ''urn'' \<noteq> JStr y) \<longrightarrow>
            curImg70 r = (r, Next)"
  proof
    assume "\<forall>d \<in> set ds. jget d ''uuid'' \<noteq> JStr y \<and> jget d ''urn'' \<noteq> JStr y"
    then have "curImg70_scan (Some y) ds = None"
      by (intro curImg70_scan_none) (simp add: param_eq_def)
    then show "curImg70 r = (r, Next)"
      using assms(2,5) g by (simp add: curImg70_def)
  qed
  have modern_first: "\<forall>i < length ds.
            (jget (ds ! i) ''uuid'' = JStr y \<or> jget (ds ! i) ''urn'' = JStr y) \<and>
            (\<forall>j < i. jget (ds ! j) ''uuid'' \<noteq> JStr y \<and> jget (ds ! j) ''urn'' \<noteq> JStr y) \<longrightarrow>
            curImg70 r = (r\<lparr>dataset := JObj (ds ! i)\<rparr>, Next)"
  proof (intro allI impI)
    fix i
    assume i: "i < length ds"
      and h: "(jget (ds ! i) ''uuid'' = JStr y \<or> jget (ds ! i) ''urn'' = JStr y) \<and>
            (\<forall>j < i. jget (ds ! j) ''uuid'' \<noteq> JStr y \<and> jget (ds ! j) ''urn'' \<noteq> JStr y)"
    have "curImg70_scan (Some y) ds = Some (ds ! i)"
      using i h by (intro curImg70_scan_first) (simp_all add: param_eq_def)
    then show "curImg70 r = (r\<lparr>dataset := JObj (ds ! i)\<rparr>, Next)"
      using assms(2,5) g by (simp add: curImg70_def)
  qed
  from legacy_none legacy_some modern_none modern_first show ?thesis by blast
qed

theorem curImg65_curImg70_diverge_witness:
  "(\<exists>m. curImg65 ref_semver (dataset_req ''sdc:sdc:smartos:1.6'')
          = ((dataset_req ''sdc:sdc:smartos:1.6'')\<lparr>dataset := JObj m\<rparr>, Next) \<and>
        m \<in> set smartos_images \<and> (\<forall>q \<in> set smartos_images. version_ge ref_semver m q)) \<and>
   curImg70 (dataset_req ''sdc:sdc:smartos:1.6'')
     = ((dataset_req ''sdc:sdc:smartos:1.6'')\<lparr>dataset := JObj (active_images ! 0)\<rparr>, Next)"
proof -
  let ?r = "dataset_req ''sdc:sdc:smartos:1.6''"
  have h2: "datasets ?r = Some active_images"
    by (simp add: dataset_req_def)
  have h3: "param_or (param ?r ''dataset'') (param ?r ''image'') = Some ''sdc:sdc:smartos:1.6''"
    and h5: "param_or (param ?r ''image'') (param ?r ''dataset'') = Some ''sdc:sdc:smartos:1.6''"
    by (simp_all add: dataset_req_def example_req_def param_def param_or_def given_def)
  have h4: "''sdc:sdc:smartos:1.6'' \<noteq> []" by simp
  have h7: "smartos_images =
      filter (\<lambda>d. jget d ''uuid'' = JStr ''sdc:sdc:smartos:1.6'' \<or>
                   jget d ''urn'' = JStr ''sdc:sdc:smartos:1.6'' \<or>
                   jget d ''name'' = JStr ''sdc:sdc:smartos:1.6'') active_images"
    by (simp add: active_images_def smartos_images_def img_entity_def jget_def)
  have ne: "smartos_images \<noteq> []" by (simp add: smartos_images_def)
  have v: "\<forall>m \<in> set smartos_images. has_valid_version ref_semver m"
    using active_images_valid by (simp add: active_images_def)
  have i0: "0 < length active_images" by (simp add: active_images_def smartos_images_def)
  have m0: "jget (active_images ! 0) ''urn'' = JStr ''sdc:sdc:smartos:1.6''"
    by (simp add: active_images_def smartos_images_def img_entity_def jget_def)
  from curImg65_curImg70_diverge [OF ref_semver_ordered h2 h3 h4 h5 h4 h7]
  show ?thesis using ne v i0 m0 by blast
qed

text \<open>On the example images the two functions select different releases for the same urn,
  and only the legacy function finds an image by its name.\<close>

lemma curImg_urn_example:
  "curImg65 ref_semver (dataset_req ''sdc:sdc:smartos:1.6'')
     = ((dataset_req ''sdc:sdc:smartos:1.6'')\<lparr>dataset := JObj (smartos_images ! 1)\<rparr>, Next) \<and>
   curImg70 (dataset_req ''sdc:sdc:smartos:1.6'')
     = ((dataset_req ''sdc:sdc:smartos:1.6'')\<lparr>dataset := JObj (smartos_images ! 0)\<rparr>, Next) \<and>
   jget (smartos_images ! 1) ''version'' = JStr ''1.6.3'' \<and>
   jget (smartos_images ! 0) ''version'' = JStr ''1.6.2''"
  by code_simp

lemma curImg_name_example:
  "curImg65 ref_semver (dataset_req ''base'')
     = ((dataset_req ''base'')\<lparr>dataset := JObj (active_images ! 2)\<rparr>, Next) \<and>
   jget (active_images ! 2) ''name'' = JStr ''base'' \<and>
   curImg70 (dataset_req ''base'') = (dataset_req ''base'', Next)"
  by code_simp

text \<open>When a candidate matching the identifier carries a version that is not a semantic
  version, the legacy function throws and selects nothing.\<close>

theorem curImg65_invalid_version_throws:
  "param ((dataset_req ''smartos'')\<lparr>datasets := Some mixed_smartos_images\<rparr>) ''dataset''
     = Some ''smartos'' \<and>
   filter (\<lambda>d. jget d ''uuid'' = JStr ''smartos'' \<or> jget d ''urn'' = JStr ''smartos''
                \<or> jget d ''name'' = JStr ''smartos'') mixed_smartos_images
     = mixed_smartos_images \<and>
   mixed_smartos_images \<noteq> [] \<and>
   curImg65 ref_semver ((dataset_req ''smartos'')\<lparr>datasets := Some mixed_smartos_images\<rparr>)
     = ((dataset_req ''smartos'')\<lparr>datasets := Some mixed_smartos_images\<rparr>,
        Threw (TypeError ''Invalid Version''))"
  by code_simp

text \<open>
  C10.  When neither the \<^verbatim>\<open>dataset\<close> nor the \<^verbatim>\<open>image\<close> parameter is given, the legacy
  function \<^verbatim>\<open>curImg65\<close> falls back to the candidates named exactly \<^verbatim>\<open>smartos\<close>: it
  selects nothing when there is none and otherwise, when every one of them has a valid
  version, one whose version is greater than or equal to all of theirs.  The modern function \<^verbatim>\<open>curImg70\<close>
  leaves the request as it is.
\<close>

theorem curImg_without_identifier:
  assumes "semver_ordered sv" and "datasets r = Some ds"
    and "\<not> given (param r ''dataset'')" and "\<not> given (param r ''image'')"
    and "ms = filter (\<lambda>d. jget d ''name'' = JStr ''smartos'') ds"
  shows "(ms = [] \<longrightarrow> curImg65 sv r = (r, Next)) \<and>
         (ms \<noteq> [] \<and> (\<forall>m \<in> set ms. has_valid_version sv m) \<longrightarrow>
            (\<exists>m. curImg65 sv r = (r\<lparr>dataset := JObj m\<rparr>, Next) \<and> m \<in> set ms \<and>
                 (\<forall>q \<in> set ms. version_ge sv m q))) \<and>
         curImg70 r = (r, Next)"
proof -
  have m65: "curImg65_matches r ds = ms"
    using assms(3,4,5) by (simp add: curImg65_matches_def param_or_def)
  have legacy_none: "ms = [] \<longrightarrow> curImg65 sv r = (r, Next)"
    using m65 assms(2) by (simp add: curImg65_def)
  have legacy_some: "ms \<noteq> [] \<and> (\<forall>m \<in> set ms. has_valid_version sv m) \<longrightarrow>
      (\<exists>m. curImg65 sv r = (r\<lparr>dataset := JObj m\<rparr>, Next) \<and> m \<in> set ms \<and>
           (\<forall>q \<in> set ms. version_ge sv m q))"
  proof
    assume a: "ms \<noteq> [] \<and> (\<forall>m \<in> set ms. has_valid_version sv m)"
    then have "ms \<noteq> []" and "\<forall>m \<in> set ms. has_valid_version sv m" by simp_all
    from select_by_reduce [OF assms(1) this, of r]
    show "\<exists>m. curImg65 sv r = (r\<lparr>dataset := JObj m\<rparr>, Next) \<and> m \<in> set ms \<and>
           (\<forall>q \<in> set ms. version_ge sv m q)"
      using m65 assms(2) by (simp add: curImg65_def)
  qed
  have modern: "curImg70 r = (r, Next)"
    using assms(3,4) by (simp add: curImg70_def param_or_def)
  from legacy_none legacy_some modern show ?thesis by blast
qed

theorem curImg_without_identifier_witness:
  "(\<exists>m. curImg65 ref_semver no_image_req = (no_image_req\<lparr>dataset := JObj m\<rparr>, Next) \<and>
        m \<in> set smartos_images \<and> (\<forall>q \<in> set smartos_images. version_ge ref_semver m q)) \<and>
   curImg70 no_image_req = (no_image_req, Next)"
proof -
  have h2: "datasets no_image_req = Some active_images"
    by (simp add: no_image_req_def)
  have h3: "\<not> given (param no_image_req ''dataset'')"
    and h4: "\<not> given (param no_image_req ''image'')"
    by (simp_all add: no_image_req_def example_req_def param_def given_def)
  have h5: "smartos_images = filter (\<lambda>d. jget d ''name'' = JStr ''smartos'') active_images"
    by (simp add: active_images_def smartos_images_def img_entity_def jget_def)
  have ne: "smartos_images \<noteq> []" by (simp add: smartos_images_def)
  have v: "\<forall>m \<in> set smartos_images. has_valid_version ref_semver m"
    using active_images_valid by (simp add: active_images_def)
  from curImg_without_identifier [OF ref_semver_ordered h2 h3 h4 h5]
  show ?thesis using ne v by blast
qed

lemma curImg_without_identifier_example:
  "curImg65 ref_semver no_image_req
     = (no_image_req\<lparr>dataset := JObj (smartos_images ! 1)\<rparr>, Next)"
  by code_simp

text \<open>When a candidate named \<^verbatim>\<open>smartos\<close> carries a version that is not a semantic
  version, the fallback of the legacy function throws and selects nothing.\<close>

theorem curImg65_fallback_invalid_version_throws:
  "param (no_image_req\<lparr>datasets := Some mixed_smartos_images\<rparr>) ''dataset'' = None \<and>
   param (no_image_req\<lparr>datasets := Some mixed_smartos_images\<rparr>) ''image'' = None \<and>
   filter (\<lambda>d. jget d ''name'' = JStr ''smartos'') mixed_smartos_images
     = mixed_smartos_images \<and>
   mixed_smartos_images \<noteq> [] \<and>
   curImg65 ref_semver (no_image_req\<lparr>datasets := Some mixed_smartos_images\<rparr>)
     = (no_image_req\<lparr>datasets := Some mixed_smartos_images\<rparr>,
        Threw (TypeError ''Invalid Version''))"
  by code_simp

section \<open>The selected entity and the candidate list\<close>

lemma reduce_gte_member: "reduce_gte sv a bs = Inr m \<Longrightarrow> m \<in> set (a # bs)"
proof (induction bs arbitrary: a)
  case Nil
  then show ?case by simp
next
  case (Cons b bs)
  then show ?case
    by (fastforce split: sum.splits if_splits)
qed

lemma curImg70_scan_member: "curImg70_scan p ds = Some d \<Longrightarrow> d \<in> set ds"
  by (induction ds) (auto split: if_splits)

lemma select_newest_fields:
  assumes "select_newest sv r xs = (r', out)"
  shows "packages r' = packages r \<and> (pkg r' = pkg r \<or> (\<exists>m \<in> set xs. pkg r' = JObj m))"
proof (cases xs)
  case Nil
  with assms show ?thesis by (simp add: select_newest_def)
next
  case (Cons a bs)
  show ?thesis
  proof (cases "reduce_gte sv a bs")
    case (Inl e)
    with assms Cons show ?thesis by (simp add: select_newest_def)
  next
    case (Inr m)
    with reduce_gte_member have "m \<in> set xs" using Cons by blast
    with assms Cons Inr show ?thesis by (auto simp add: select_newest_def)
  qed
qed

lemma loadPackages_named_packages:
  "loadPackages_named sv s r n = (r', out) \<Longrightarrow> packages r' = packages r"
  by (auto simp add: loadPackages_named_def split: if_splits sum.splits
      dest: select_newest_fields)

lemma loadPackages_unnamed_member:
  assumes "loadPackages_unnamed sv s r = (r', out)" and "pkg r = JBool False"
    and "packages r' = Some ps" and "pkg r' = JObj p"
  shows "p \<in> set ps"
proof -
  consider (machines) "ends_with ''/machines'' (pathname r) \<and> toLowerCase (req_method r) \<noteq> ''post''"
    | (other) "\<not> (ends_with ''/machines'' (pathname r) \<and> toLowerCase (req_method r) \<noteq> ''post'')"
        "toLowerCase (req_method r) \<noteq> ''post'' \<or> param r ''action'' \<noteq> Some ''resize''"
    | (resize) "\<not> (ends_with ''/machines'' (pathname r) \<and> toLowerCase (req_method r) \<noteq> ''post'')"
        "\<not> (toLowerCase (req_method r) \<noteq> ''post'' \<or> param r ''action'' \<noteq> Some ''resize'')"
    by blast
  then show ?thesis
  proof cases
    case machines
    with assms show ?thesis
      by (auto simp add: loadPackages_unnamed_def split: sum.splits)
  next
    case other
    with assms show ?thesis
      by (auto simp add: loadPackages_unnamed_def)
  next
    case resize
    show ?thesis
    proof (cases "papi_list s [(''owner_uuids'', JStr (account_uuid r)), (''active'', JBool True)]")
      case (Inl e)
      with resize assms show ?thesis by (auto simp add: loadPackages_unnamed_def)
    next
      case (Inr pkgs)
      with resize assms(1) have
        "select_newest sv (r\<lparr>packages := Some pkgs\<rparr>)
           (filter (\<lambda>p. jget p ''default'' = JBool True) pkgs) = (r', out)"
        by (auto simp add: loadPackages_unnamed_def)
      from select_newest_fields [OF this] assms(2,3,4) show ?thesis by auto
    qed
  qed
qed

lemma getImage_datasets: "getImage s r = (r', out) \<Longrightarrow> datasets r' = datasets r"
  by (auto simp add: getImage_def split: if_splits sum.splits)

lemma curImg65_member:
  assumes "curImg65 sv r = (r', out)" and "dataset r = JBool False"
    and "datasets r' = Some ds" and "dataset r' = JObj d"
  shows "d \<in> set ds"
proof (cases "datasets r")
  case None
  with assms show ?thesis by (simp add: curImg65_def)
next
  case (Some ds0)
  have sub: "set (curImg65_matches r ds0) \<subseteq> set ds0"
    by (auto simp add: curImg65_matches_def Let_def)
  show ?thesis
  proof (cases "curImg65_matches r ds0")
    case Nil
    with assms Some show ?thesis by (simp add: curImg65_def)
  next
    case (Cons a bs)
    show ?thesis
    proof (cases "reduce_gte sv a bs")
      case (Inl e)
      with assms Some Cons show ?thesis by (simp add: curImg65_def)
    next
      case (Inr m)
      from reduce_gte_member [OF this] sub Cons have "m \<in> set ds0" by auto
      with assms Some Cons Inr show ?thesis by (auto simp add: curImg65_def)
    qed
  qed
qed

lemma curImg70_member:
  assumes "curImg70 r = (r', out)" and "dataset r = JBool False"
    and "datasets r' = Some ds" and "dataset r' = JObj d"
  shows "d \<in> set ds"
  using assms
  by (auto simp add: curImg70_def Let_def split: if_splits option.splits
      dest: curImg70_scan_member)


lemma UUID_RE_test_Nil: "\<not> UUID_RE_test []"
  by code_simp

text \<open>
  C9.  For a request that arrives without candidate lists: after \<^verbatim>\<open>loadPackages\<close>,
  whenever \<^verbatim>\<open>req.packages\<close> has been loaded and \<^verbatim>\<open>req.pkg\<close> holds an entity, that entity
  is a member of \<^verbatim>\<open>req.packages\<close>; after \<^verbatim>\<open>load\<close>, whenever \<^verbatim>\<open>req.datasets\<close> has been
  loaded and \<^verbatim>\<open>req.dataset\<close> holds an entity, that entity is a member of
  \<^verbatim>\<open>req.datasets\<close>.  When the package is looked up by a UUID-shaped identifier,
  \<^verbatim>\<open>req.packages\<close> stays absent and \<^verbatim>\<open>req.pkg\<close> is the entity the backend returned; when
  the image is looked up by a UUID-shaped identifier, \<^verbatim>\<open>req.datasets\<close> stays absent and
  \<^verbatim>\<open>req.dataset\<close> is the image the backend returned, unless it is destroyed.  This holds
  however the handler ends.
\<close>

theorem preload_selection_member:
  assumes "packages rp = None" and "loadPackages sv s rp = (rp', outp)"
    and "datasets rd = None" and "datasets_load sv s rd = (rd', outd)"
  shows "(\<forall>ps p. packages rp' = Some ps \<and> pkg rp' = JObj p \<longrightarrow> p \<in> set ps) \<and>
         (\<forall>ds d. datasets rd' = Some ds \<and> dataset rd' = JObj d \<longrightarrow> d \<in> set ds) \<and>
         (\<forall>n. url rp \<noteq> ''/--ping'' \<and> \<not> ends_with ''/packages'' (pathname rp) \<and>
              param rp ''package'' = Some n \<and> UUID_RE_test n \<longrightarrow>
              packages rp' = None \<and>
              (\<forall>p. papi_get s n [(''owner_uuids'', JStr (account_uuid rp))] = Inr p \<longrightarrow>
                   pkg rp' = JObj p)) \<and>
         (url rd \<noteq> ''/--ping'' \<and>
          is_uuid_param (param_or (param rd ''image'') (param rd ''dataset'')) \<longrightarrow>
              datasets rd' = None \<and>
              (\<forall>i. loadImage s rd = Inr i \<and> jget i ''state'' \<noteq> JStr ''destroyed'' \<longrightarrow>
                   dataset rd' = JObj i))"
proof -
  have pk: "\<forall>ps p. packages rp' = Some ps \<and> pkg rp' = JObj p \<longrightarrow> p \<in> set ps"
  proof (intro allI impI)
    fix ps p
    assume a: "packages rp' = Some ps \<and> pkg rp' = JObj p"
    let ?r = "rp\<lparr>pkg := JBool False\<rparr>"
    consider (skip) "url rp = ''/--ping'' \<or> ends_with ''/packages'' (pathname rp)"
      | (named) n where "url rp \<noteq> ''/--ping''" "\<not> ends_with ''/packages'' (pathname rp)"
          "param rp ''package'' = Some n" "n \<noteq> []"
      | (unnamed) "url rp \<noteq> ''/--ping''" "\<not> ends_with ''/packages'' (pathname rp)"
          "\<not> given (param rp ''package'')"
      by (cases "param rp ''package''") (auto simp add: given_def)
    then show "p \<in> set ps"
    proof cases
      case skip
      with assms(1,2) a show ?thesis
        by (auto simp add: loadPackages_def Let_def split: if_splits)
    next
      case named
      with assms(2) have "loadPackages_named sv s ?r n = (rp', outp)"
        by (simp add: loadPackages_def Let_def param_def)
      from loadPackages_named_packages [OF this] assms(1) a show ?thesis by simp
    next
      case unnamed
      with assms(2) have "loadPackages_unnamed sv s ?r = (rp', outp)"
        by (auto simp add: loadPackages_def Let_def param_def given_def split: option.splits)
      from loadPackages_unnamed_member [OF this] a show ?thesis by simp
    qed
  qed
  have ds: "\<forall>ds d. datasets rd' = Some ds \<and> dataset rd' = JObj d \<longrightarrow> d \<in> set ds"
  proof (intro allI impI)
    fix ds d
    assume a: "datasets rd' = Some ds \<and> dataset rd' = JObj d"
    let ?r = "rd\<lparr>dataset := JBool False\<rparr>"
    consider (skip) "url rd = ''/--ping''"
      | (uuid) "url rd \<noteq> ''/--ping''"
          "is_uuid_param (param_or (param rd ''image'') (param rd ''dataset''))"
      | (none) "url rd \<noteq> ''/--ping''"
          "\<not> is_uuid_param (param_or (param rd ''image'') (param rd ''dataset''))"
          "contains ''/machines/'' (url rd) \<or>
           \<not> (contains ''/datasets'' (url rd) \<or> contains ''/machines'' (url rd)
               \<or> contains ''/images'' (url rd))"
      | (load) "url rd \<noteq> ''/--ping''"
          "\<not> is_uuid_param (param_or (param rd ''image'') (param rd ''dataset''))"
          "\<not> contains ''/machines/'' (url rd)"
          "contains ''/datasets'' (url rd) \<or> contains ''/machines'' (url rd)
               \<or> contains ''/images'' (url rd)"
      by blast
    then show "d \<in> set ds"
    proof cases
      case skip
      with assms(3,4) a show ?thesis by (simp add: datasets_load_def)
    next
      case uuid
      with assms(4) have "getImage s ?r = (rd', outd)"
        by (simp add: datasets_load_def Let_def param_def)
      from getImage_datasets [OF this] assms(3) a show ?thesis by simp
    next
      case none
      with assms(3,4) a show ?thesis
        by (auto simp add: datasets_load_def Let_def param_def split: if_splits)
    next
      case load
      show ?thesis
      proof (cases "loadImages s ?r")
        case (Inl e)
        with load assms(3,4) a show ?thesis
          by (auto simp add: datasets_load_def Let_def param_def split: if_splits)
      next
        case (Inr l1)
        show ?thesis
        proof (cases "loadDisabledImages s (?r\<lparr>datasets := Some l1\<rparr>)")
          case (Inl e)
          with Inr load assms(4) a show ?thesis
            by (auto simp add: datasets_load_def Let_def param_def split: if_splits)
        next
          case dis: (Inr l2)
          let ?r2 = "?r\<lparr>datasets := Some (l1 @ l2)\<rparr>"
          have sel: "(if test_6_5 (version rd) then curImg65 sv ?r2 else curImg70 ?r2)
                       = (rd', outd)"
            using Inr dis load assms(4)
            by (auto simp add: datasets_load_def Let_def param_def split: if_splits)
          have f: "dataset ?r2 = JBool False" by simp
          show ?thesis
          proof (cases "test_6_5 (version rd)")
            case True
            with sel have "curImg65 sv ?r2 = (rd', outd)" by simp
            from curImg65_member [OF this f] a show ?thesis by simp
          next
            case False
            with sel have "curImg70 ?r2 = (rd', outd)" by simp
            from curImg70_member [OF this f] a show ?thesis by simp
          qed
        qed
      qed
    qed
  qed
  have pu: "\<forall>n. url rp \<noteq> ''/--ping'' \<and> \<not> ends_with ''/packages'' (pathname rp) \<and>
              param rp ''package'' = Some n \<and> UUID_RE_test n \<longrightarrow>
              packages rp' = None \<and>
              (\<forall>p. papi_get s n [(''owner_uuids'', JStr (account_uuid rp))] = Inr p \<longrightarrow>
                   pkg rp' = JObj p)"
  proof (intro allI impI)
    fix n
    assume h: "url rp \<noteq> ''/--ping'' \<and> \<not> ends_with ''/packages'' (pathname rp) \<and>
              param rp ''package'' = Some n \<and> UUID_RE_test n"
    then have "n \<noteq> []" using UUID_RE_test_Nil by auto
    with h assms(1,2) show "packages rp' = None \<and>
              (\<forall>p. papi_get s n [(''owner_uuids'', JStr (account_uuid rp))] = Inr p \<longrightarrow>
                   pkg rp' = JObj p)"
      by (auto simp add: loadPackages_def loadPackages_named_def Let_def param_def
          split: sum.splits)
  qed
  have du: "url rd \<noteq> ''/--ping'' \<and>
          is_uuid_param (param_or (param rd ''image'') (param rd ''dataset'')) \<longrightarrow>
              datasets rd' = None \<and>
              (\<forall>i. loadImage s rd = Inr i \<and> jget i ''state'' \<noteq> JStr ''destroyed'' \<longrightarrow>
                   dataset rd' = JObj i)"
    using assms(3,4)
    by (auto simp add: datasets_load_def getImage_def loadImage_def Let_def param_def
        split: sum.splits if_splits)
  from pk ds pu du show ?thesis by blast
qed

theorem preload_selection_member_witness:
  "(\<exists>ps p. packages (fst (loadPackages ref_semver example_sdc resize_req)) = Some ps \<and>
           pkg (fst (loadPackages ref_semver example_sdc resize_req)) = JObj p \<and> p \<in> set ps) \<and>
   (\<exists>ds d. datasets (fst (datasets_load ref_semver example_sdc (list_datasets_req ''~6.5'')))
              = Some ds \<and>
           dataset (fst (datasets_load ref_semver example_sdc (list_datasets_req ''~6.5'')))
              = JObj d \<and> d \<in> set ds) \<and>
   packages (fst (loadPackages ref_semver example_sdc by_uuid_req)) = None \<and>
   pkg (fst (loadPackages ref_semver example_sdc by_uuid_req)) = JObj (small_packages ! 0) \<and>
   datasets (fst (datasets_load ref_semver example_sdc
                    (image_req ''22222222-0000-0000-0000-000000000003''))) = None \<and>
   dataset (fst (datasets_load ref_semver example_sdc
                    (image_req ''22222222-0000-0000-0000-000000000003'')))
     = JObj (active_images ! 2)"
proof -
  let ?large = "pkg_entity ''11111111-0000-0000-0000-000000000004'' ''large'' ''2.0.0'' True"
  let ?rp' = "resize_req\<lparr>pkg := JObj ?large, packages := Some example_packages\<rparr>"
  let ?rd = "list_datasets_req ''~6.5''"
  let ?rd' = "?rd\<lparr>dataset := JObj (smartos_images ! 1), datasets := Some active_images\<rparr>"
  let ?ri = "image_req ''22222222-0000-0000-0000-000000000003''"
  have p0: "packages resize_req = None" "packages by_uuid_req = None"
    by (simp_all add: resize_req_def by_uuid_req_def example_req_def)
  have d0: "datasets ?rd = None" "datasets ?ri = None"
    by (simp_all add: list_datasets_req_def image_req_def example_req_def)
  have e1: "loadPackages ref_semver example_sdc resize_req = (?rp', Next)"
    by code_simp
  have e2: "datasets_load ref_semver example_sdc ?rd = (?rd', Next)"
    by code_simp
  have e3: "loadPackages ref_semver example_sdc by_uuid_req
              = (by_uuid_req\<lparr>pkg := JObj (small_packages ! 0)\<rparr>, Next)"
    by code_simp
  have e4: "datasets_load ref_semver example_sdc ?ri
              = (?ri\<lparr>dataset := JObj (active_images ! 2)\<rparr>, Next)"
    by code_simp
  have u1: "url by_uuid_req \<noteq> ''/--ping'' \<and> \<not> ends_with ''/packages'' (pathname by_uuid_req) \<and>
            param by_uuid_req ''package'' = Some ''11111111-0000-0000-0000-000000000001'' \<and>
            UUID_RE_test ''11111111-0000-0000-0000-000000000001''"
    by code_simp
  have u2: "papi_get example_sdc ''11111111-0000-0000-0000-000000000001''
              [(''owner_uuids'', JStr (account_uuid by_uuid_req))] = Inr (small_packages ! 0)"
    by code_simp
  have u3: "url ?ri \<noteq> ''/--ping'' \<and>
            is_uuid_param (param_or (param ?ri ''image'') (param ?ri ''dataset''))"
    by code_simp
  have u4: "loadImage example_sdc ?ri = Inr (active_images ! 2) \<and>
            jget (active_images ! 2) ''state'' \<noteq> JStr ''destroyed''"
    by code_simp
  from preload_selection_member [OF p0(1) e1 d0(1) e2]
  have a: "?large \<in> set example_packages" "smartos_images ! 1 \<in> set active_images"
    by simp_all
  from preload_selection_member [OF p0(2) e3 d0(2) e4] u1 u2 u3 u4
  have b: "packages (by_uuid_req\<lparr>pkg := JObj (small_packages ! 0)\<rparr>) = None"
          "pkg (by_uuid_req\<lparr>pkg := JObj (small_packages ! 0)\<rparr>) = JObj (small_packages ! 0)"
          "datasets (?ri\<lparr>dataset := JObj (active_images ! 2)\<rparr>) = None"
          "dataset (?ri\<lparr>dataset := JObj (active_images ! 2)\<rparr>) = JObj (active_images ! 2)"
    by blast+
  show ?thesis
    using a b by (simp add: e1 e2 e3 e4)
qed

section \<open>Listing images\<close>

lemma keys_set_prop: "fst ` set (set_prop obj k v) = insert k (fst ` set obj)"
  by (simp add: dom_map_of_conv_image_fst [symmetric] map_of_set_prop)

lemma translate_fields_no_urn: "''urn'' \<notin> set (translate_fields sv r)"
  by (simp add: translate_fields_def Let_def keys_set_prop)

lemma copy_fields_other:
  "copy_fields ds fs obj = Inr obj' \<Longrightarrow> k \<notin> set fs \<Longrightarrow>
     jget obj' k = jget obj k \<and> hasOwnProperty obj' k = hasOwnProperty obj k"
proof (induction fs arbitrary: obj)
  case Nil
  then show ?case by simp
next
  case (Cons f fs)
  then have kf: "k \<noteq> f" and kfs: "k \<notin> set fs" by auto
  show ?case
  proof (cases "hasOwnProperty ds f")
    case False
    with Cons.prems(1) have "copy_fields ds fs obj = Inr obj'" by simp
    from Cons.IH [OF this kfs] show ?thesis .
  next
    case own: True
    show ?thesis
    proof (cases "f = ''error''")
      case True
      with own Cons.prems(1) obtain eo where
        "copy_fields ds fs (set_prop obj ''error'' (JObj eo)) = Inr obj'"
        by (auto split: sum.splits)
      from Cons.IH [OF this kfs] kf True show ?thesis
        by (simp add: jget_set_prop hasOwnProperty_set_prop)
    next
      case False
      with own Cons.prems(1) have "copy_fields ds fs (set_prop obj f (jget ds f)) = Inr obj'"
        by simp
      from Cons.IH [OF this kfs] kf show ?thesis
        by (simp add: jget_set_prop hasOwnProperty_set_prop)
    qed
  qed
qed

lemma errorObjFromImgapiImage_returns:
  "jget ds ''error'' \<noteq> JUndefined \<Longrightarrow> jget ds ''error'' \<noteq> JNull \<Longrightarrow>
     \<exists>eo. errorObjFromImgapiImage ds = Inr eo"
  by (simp add: errorObjFromImgapiImage_def Let_def)

lemma copy_fields_returns:
  assumes "hasOwnProperty ds ''error'' \<longrightarrow>
             jget ds ''error'' \<noteq> JUndefined \<and> jget ds ''error'' \<noteq> JNull"
  shows "\<exists>obj'. copy_fields ds fs obj = Inr obj'"
proof (induction fs arbitrary: obj)
  case Nil
  then show ?case by simp
next
  case (Cons f fs)
  show ?case
  proof (cases "hasOwnProperty ds f \<and> f = ''error''")
    case True
    with assms errorObjFromImgapiImage_returns obtain eo where
      "errorObjFromImgapiImage ds = Inr eo" by blast
    with True Cons.IH show ?thesis by simp
  next
    case False
    with Cons.IH show ?thesis by auto
  qed
qed

lemma truthy_not_undefined: "truthy v \<Longrightarrow> v \<noteq> JUndefined"
  by auto

lemma datasets_translate_urn:
  assumes "datasets_translate sv r ds = Inr t"
  shows "hasOwnProperty t ''urn'' = (truthy (jget ds ''urn'') \<and> isDeprecatedEndpoint (url r))"
    and "(jget t ''urn'' \<noteq> JUndefined) = (truthy (jget ds ''urn'') \<and> isDeprecatedEndpoint (url r))"
proof -
  from assms obtain obj4 where
    c: "copy_fields ds (translate_fields sv r) obj4 = Inr t"
    and h: "hasOwnProperty obj4 ''urn'' = (truthy (jget ds ''urn'') \<and> isDeprecatedEndpoint (url r))"
    and j: "jget obj4 ''urn'' =
             (if truthy (jget ds ''urn'') \<and> isDeprecatedEndpoint (url r)
              then jget ds ''urn'' else JUndefined)"
    by (simp add: datasets_translate_def Let_def jget_set_prop hasOwnProperty_set_prop
        jget_Cons jget_Nil hasOwnProperty_Cons hasOwnProperty_Nil)
  from copy_fields_other [OF c translate_fields_no_urn]
  have "jget t ''urn'' = jget obj4 ''urn''" "hasOwnProperty t ''urn'' = hasOwnProperty obj4 ''urn''"
    by simp_all
  with h j show "hasOwnProperty t ''urn'' = (truthy (jget ds ''urn'') \<and> isDeprecatedEndpoint (url r))"
    and "(jget t ''urn'' \<noteq> JUndefined) = (truthy (jget ds ''urn'') \<and> isDeprecatedEndpoint (url r))"
    using truthy_not_undefined by auto
qed

lemma datasets_translate_returns:
  assumes "hasOwnProperty ds ''error'' \<longrightarrow>
             jget ds ''error'' \<noteq> JUndefined \<and> jget ds ''error'' \<noteq> JNull"
  shows "\<exists>t. datasets_translate sv r ds = Inr t"
  using copy_fields_returns [OF assms] by (simp add: datasets_translate_def Let_def)

lemma translate_each_returns:
  assumes "\<forall>d \<in> set ds. hasOwnProperty d ''error'' \<longrightarrow>
             jget d ''error'' \<noteq> JUndefined \<and> jget d ''error'' \<noteq> JNull"
  shows "\<exists>ts. translate_each sv r ds = Inr ts"
  using assms
proof (induction ds)
  case Nil
  then show ?case by simp
next
  case (Cons d ds)
  then obtain ts where ts: "translate_each sv r ds = Inr ts" by auto
  from Cons.prems datasets_translate_returns [of d sv r] obtain t where
    "datasets_translate sv r d = Inr t" by auto
  with ts show ?case by simp
qed

lemma translate_each_nth:
  "translate_each sv r ds = Inr ts \<Longrightarrow>
     length ts = length ds \<and> (\<forall>i < length ds. datasets_translate sv r (ds ! i) = Inr (ts ! i))"
proof (induction ds arbitrary: ts)
  case Nil
  then show ?case by simp
next
  case (Cons d ds)
  from Cons.prems obtain t ts' where
    t: "datasets_translate sv r d = Inr t" and ts': "translate_each sv r ds = Inr ts'"
    and eq: "ts = t # ts'"
    by (auto split: sum.splits)
  from Cons.IH [OF ts'] have
    len: "length ts' = length ds"
    and nth: "\<forall>i < length ds. datasets_translate sv r (ds ! i) = Inr (ts' ! i)"
    by simp_all
  show ?case
  proof (intro conjI allI impI)
    show "length ts = length (d # ds)" using len eq by simp
    fix i assume "i < length (d # ds)"
    then show "datasets_translate sv r ((d # ds) ! i) = Inr (ts ! i)"
      using t nth eq by (cases i) simp_all
  qed
qed

lemma active_images_no_error:
  "\<forall>d \<in> set active_images. hasOwnProperty d ''error'' \<longrightarrow>
       jget d ''error'' \<noteq> JUndefined \<and> jget d ''error'' \<noteq> JNull"
  by code_simp

text \<open>
  C7.  For a request whose candidate list is loaded and whose entities hold no
  \<^verbatim>\<open>null\<close> error field (so that every translation succeeds): the entities are translated
  one by one, in candidate-list order; a translated entity has the legacy \<^verbatim>\<open>urn\<close> field
  exactly when the raw entity has a non-empty \<^verbatim>\<open>urn\<close> and the request is on a deprecated
  \<^verbatim>\<open>/datasets\<close> endpoint.  Under a legacy 6.5 version the response is the list of the
  translated entities that have the \<^verbatim>\<open>urn\<close> field, the others being dropped after
  translation; under any other version it is the list of all translated entities.
\<close>

theorem datasets_list_urn_filter:
  assumes "datasets r = Some ds"
    and "\<forall>d \<in> set ds. hasOwnProperty d ''error'' \<longrightarrow>
           jget d ''error'' \<noteq> JUndefined \<and> jget d ''error'' \<noteq> JNull"
  shows "\<exists>ts. length ts = length ds \<and>
           (\<forall>i < length ds. datasets_translate sv r (ds ! i) = Inr (ts ! i)) \<and>
           (\<forall>i < length ds. hasOwnProperty (ts ! i) ''urn'' =
                (truthy (jget (ds ! i) ''urn'') \<and> isDeprecatedEndpoint (url r))) \<and>
           (test_6_5 (version r) \<longrightarrow>
              datasets_list sv r = (Some (filter (\<lambda>t. hasOwnProperty t ''urn'') ts), Next)) \<and>
           (\<not> test_6_5 (version r) \<longrightarrow> datasets_list sv r = (Some ts, Next))"
proof -
  from translate_each_returns [OF assms(2)] obtain ts where
    ts: "translate_each sv r ds = Inr ts" by blast
  from translate_each_nth [OF ts] have
    len: "length ts = length ds"
    and nth: "\<forall>i < length ds. datasets_translate sv r (ds ! i) = Inr (ts ! i)"
    by simp_all
  have urn: "\<forall>i < length ds. hasOwnProperty (ts ! i) ''urn'' =
                (truthy (jget (ds ! i) ''urn'') \<and> isDeprecatedEndpoint (url r))"
    using nth datasets_translate_urn(1) by blast
  have same: "\<forall>t \<in> set ts. (jget t ''urn'' \<noteq> JUndefined) = hasOwnProperty t ''urn''"
  proof
    fix t assume "t \<in> set ts"
    then obtain i where "i < length ts" "t = ts ! i" by (auto simp add: in_set_conv_nth)
    with nth len have "datasets_translate sv r (ds ! i) = Inr t" by simp
    from datasets_translate_urn [OF this]
    show "(jget t ''urn'' \<noteq> JUndefined) = hasOwnProperty t ''urn''" by simp
  qed
  then have filt: "filter (\<lambda>d. jget d ''urn'' \<noteq> JUndefined) ts
                  = filter (\<lambda>t. hasOwnProperty t ''urn'') ts"
    by (intro filter_cong) simp_all
  have legacy: "test_6_5 (version r) \<longrightarrow>
      datasets_list sv r = (Some (filter (\<lambda>t. hasOwnProperty t ''urn'') ts), Next)"
    using assms(1) ts filt by (simp add: datasets_list_def)
  have modern: "\<not> test_6_5 (version r) \<longrightarrow> datasets_list sv r = (Some ts, Next)"
    using assms(1) ts by (simp add: datasets_list_def)
  from len nth urn legacy modern show ?thesis by blast
qed

theorem datasets_list_urn_filter_witness:
  "(\<exists>ts. length ts = length active_images \<and>
         (\<forall>i < length active_images.
            datasets_translate ref_semver (loaded_datasets_req ''~6.5'') (active_images ! i)
              = Inr (ts ! i)) \<and>
         hasOwnProperty (ts ! 1) ''urn'' \<and> \<not> hasOwnProperty (ts ! 2) ''urn'' \<and>
         datasets_list ref_semver (loaded_datasets_req ''~6.5'')
           = (Some (filter (\<lambda>t. hasOwnProperty t ''urn'') ts), Next)) \<and>
   (\<exists>ts. length ts = length active_images \<and>
         (\<forall>i < length active_images.
            datasets_translate ref_semver (loaded_datasets_req ''~7.0'') (active_images ! i)
              = Inr (ts ! i)) \<and>
         datasets_list ref_semver (loaded_datasets_req ''~7.0'') = (Some ts, Next))"
proof -
  have d1: "datasets (loaded_datasets_req ''~6.5'') = Some active_images"
    and d2: "datasets (loaded_datasets_req ''~7.0'') = Some active_images"
    by (simp_all add: loaded_datasets_req_def)
  have v1: "test_6_5 (version (loaded_datasets_req ''~6.5''))"
    and v2: "\<not> test_6_5 (version (loaded_datasets_req ''~7.0''))"
    by code_simp+
  have u: "2 < length active_images"
    "truthy (jget (active_images ! 1) ''urn'')"
    "\<not> truthy (jget (active_images ! 2) ''urn'')"
    "isDeprecatedEndpoint (url (loaded_datasets_req ''~6.5''))"
    by code_simp+
  from datasets_list_urn_filter [OF d1 active_images_no_error, of ref_semver] v1 u
  have legacy: "\<exists>ts. length ts = length active_images \<and>
         (\<forall>i < length active_images.
            datasets_translate ref_semver (loaded_datasets_req ''~6.5'') (active_images ! i)
              = Inr (ts ! i)) \<and>
         hasOwnProperty (ts ! 1) ''urn'' \<and> \<not> hasOwnProperty (ts ! 2) ''urn'' \<and>
         datasets_list ref_semver (loaded_datasets_req ''~6.5'')
           = (Some (filter (\<lambda>t. hasOwnProperty t ''urn'') ts), Next)"
    by (metis (no_types, lifting) Suc_1 Suc_lessD lessI)
  from datasets_list_urn_filter [OF d2 active_images_no_error, of ref_semver] v2
  have modern: "\<exists>ts. length ts = length active_images \<and>
         (\<forall>i < length active_images.
            datasets_translate ref_semver (loaded_datasets_req ''~7.0'') (active_images ! i)
              = Inr (ts ! i)) \<and>
         datasets_list ref_semver (loaded_datasets_req ''~7.0'') = (Some ts, Next)"
    by blast
  from legacy modern show ?thesis by blast
qed

text \<open>On the example images the legacy listing drops the image without a urn and the
  modern listing keeps all three.\<close>

lemma datasets_list_example:
  "map_option (map (\<lambda>t. jget t ''id''))
     (fst (datasets_list ref_semver (loaded_datasets_req ''~6.5'')))
     = Some [JStr ''22222222-0000-0000-0000-000000000001'',
             JStr ''22222222-0000-0000-0000-000000000002''] \<and>
   map_option (map (\<lambda>t. jget t ''id''))
     (fst (datasets_list ref_semver (loaded_datasets_req ''~7.0'')))
     = Some [JStr ''22222222-0000-0000-0000-000000000001'',
             JStr ''22222222-0000-0000-0000-000000000002'',
             JStr ''22222222-0000-0000-0000-000000000003'']"
  by code_simp

section \<open>Listing packages through the cache\<close>

lemma set_prop_not_Nil: "set_prop obj k v \<noteq> []"
  by (cases obj) (auto split: if_splits)

lemma copy_param_Nil: "(copy_param r k k' opts = []) = (\<not> given (param r k) \<and> opts = [])"
  by (auto simp add: copy_param_def given_def set_prop_not_Nil split: option.splits)

lemma canUseCache_iff:
  "canUseCache r =
     (\<not> given (param r ''name'') \<and> \<not> given (param r ''memory'') \<and>
      \<not> given (param r ''disk'') \<and> \<not> given (param r ''swap'') \<and>
      \<not> given (param r ''version'') \<and> \<not> given (param r ''vcpus'') \<and>
      \<not> given (param r ''group''))"
  by (auto simp add: canUseCache_def list_opts_def copy_param_Nil)

lemma sendResult_store:
  "store (fst (sendResult r w res False)) = store w"
  by (simp add: sendResult_def Let_def split: sum.splits)

lemma sendResult_lookups:
  "lookups (store (fst (sendResult r w res b))) = lookups (store w)"
  by (simp add: sendResult_def cache_set_def Let_def split: sum.splits option.splits)

lemma list_cache_cb_lookups:
  "lookups (store (fst (list_cache_cb s r w opts b err cached))) = lookups (store w)"
  by (simp add: list_cache_cb_def sendResult_lookups split: option.splits)

lemma list_cache_cb_store:
  "store (fst (list_cache_cb s r w opts False err cached)) = store w"
  by (simp add: list_cache_cb_def sendResult_store split: option.splits)

text \<open>
  C2.  A package list request is eligible for the cache exactly when none of the
  recognised parameters \<^verbatim>\<open>name\<close>, \<^verbatim>\<open>memory\<close>, \<^verbatim>\<open>disk\<close>, \<^verbatim>\<open>swap\<close>, \<^verbatim>\<open>version\<close>,
  \<^verbatim>\<open>vcpus\<close>, \<^verbatim>\<open>group\<close> is given with a non-empty value; no other parameter enters the
  decision.  A request that is not eligible leaves the cache as it was: nothing is looked
  up and nothing is written.  An eligible request looks its key up once, and when that
  does not produce an entry and the backend answers, the answer is written under the key
  with the configured lifetime.
\<close>

theorem packages_list_cache_eligibility:
  "(canUseCache r =
     (\<not> given (param r ''name'') \<and> \<not> given (param r ''memory'') \<and>
      \<not> given (param r ''disk'') \<and> \<not> given (param r ''swap'') \<and>
      \<not> given (param r ''version'') \<and> \<not> given (param r ''vcpus'') \<and>
      \<not> given (param r ''group''))) \<and>
   (\<not> canUseCache r \<longrightarrow> store (fst (packages_list s r w)) = store w) \<and>
   (canUseCache r \<longrightarrow>
      lookups (store (fst (packages_list s r w))) = lookups (store w) @ [getCacheKey r]) \<and>
   (\<forall>pkgs. canUseCache r \<and>
      (fault (store w) \<noteq> None \<or> entries (store w) (getCacheKey r) = None) \<and>
      papi_list s (set_prop (set_prop (list_opts r) ''active'' (JBool True))
                     ''owner_uuids'' (JStr (account_uuid r))) = Inr pkgs \<longrightarrow>
      writes (store (fst (packages_list s r w)))
        = writes (store w) @ [(getCacheKey r, max_packages_lifetime r, pkgs)])"
proof (intro conjI impI allI)
  show "canUseCache r =
     (\<not> given (param r ''name'') \<and> \<not> given (param r ''memory'') \<and>
      \<not> given (param r ''disk'') \<and> \<not> given (param r ''swap'') \<and>
      \<not> given (param r ''version'') \<and> \<not> given (param r ''vcpus'') \<and>
      \<not> given (param r ''group''))"
    by (rule canUseCache_iff)
next
  assume "\<not> canUseCache r"
  then show "store (fst (packages_list s r w)) = store w"
    by (simp add: packages_list_def cache_get_def Let_def list_cache_cb_store)
next
  assume "canUseCache r"
  then show "lookups (store (fst (packages_list s r w))) = lookups (store w) @ [getCacheKey r]"
    by (simp add: packages_list_def cache_get_def Let_def list_cache_cb_lookups
        split: option.splits)
next
  fix pkgs
  assume a: "canUseCache r \<and>
      (fault (store w) \<noteq> None \<or> entries (store w) (getCacheKey r) = None) \<and>
      papi_list s (set_prop (set_prop (list_opts r) ''active'' (JBool True))
                     ''owner_uuids'' (JStr (account_uuid r))) = Inr pkgs"
  then show "writes (store (fst (packages_list s r w)))
        = writes (store w) @ [(getCacheKey r, max_packages_lifetime r, pkgs)]"
    by (auto simp add: packages_list_def cache_get_def Let_def list_cache_cb_def
        sendResult_def cache_set_def split: option.splits)
qed

theorem packages_list_cache_eligibility_witness:
  "canUseCache (list_packages_req []) \<and>
   lookups (store (fst (packages_list example_sdc (list_packages_req []) fresh_world)))
     = [getCacheKey (list_packages_req [])] \<and>
   writes (store (fst (packages_list example_sdc (list_packages_req []) fresh_world)))
     = [(getCacheKey (list_packages_req []), 60, example_packages)] \<and>
   given (param (list_packages_req [(''name'', ''small'')]) ''name'') \<and>
   \<not> canUseCache (list_packages_req [(''name'', ''small'')]) \<and>
   store (fst (packages_list example_sdc (list_packages_req [(''name'', ''small'')])
                 fresh_world)) = store fresh_world \<and>
   canUseCache (list_packages_req [(''limit'', ''10'')])"
proof -
  let ?r = "list_packages_req []"
  have g0: "\<not> given (param ?r ''name'')" "\<not> given (param ?r ''memory'')"
    "\<not> given (param ?r ''disk'')" "\<not> given (param ?r ''swap'')"
    "\<not> given (param ?r ''version'')" "\<not> given (param ?r ''vcpus'')"
    "\<not> given (param ?r ''group'')"
    by (simp_all add: list_packages_req_def example_req_def param_def given_def)
  have g1: "given (param (list_packages_req [(''name'', ''small'')]) ''name'')"
    by (simp add: list_packages_req_def example_req_def param_def given_def)
  let ?l = "list_packages_req [(''limit'', ''10'')]"
  have g2: "\<not> given (param ?l ''name'')" "\<not> given (param ?l ''memory'')"
    "\<not> given (param ?l ''disk'')" "\<not> given (param ?l ''swap'')"
    "\<not> given (param ?l ''version'')" "\<not> given (param ?l ''vcpus'')"
    "\<not> given (param ?l ''group'')"
    by (simp_all add: list_packages_req_def example_req_def param_def given_def)
  have w0: "lookups (store fresh_world) = []" "writes (store fresh_world) = []"
    "fault (store fresh_world) = None"
    "entries (store fresh_world) (getCacheKey ?r) = None"
    by (simp_all add: fresh_world_def)
  have q: "papi_list example_sdc
             (set_prop (set_prop (list_opts ?r) ''active'' (JBool True))
                ''owner_uuids'' (JStr (account_uuid ?r))) = Inr example_packages"
    by code_simp
  have l: "max_packages_lifetime ?r = 60"
    by (simp add: list_packages_req_def example_req_def)
  show ?thesis
    using packages_list_cache_eligibility [of ?r example_sdc fresh_world]
          packages_list_cache_eligibility
            [of "list_packages_req [(''name'', ''small'')]" example_sdc fresh_world]
          packages_list_cache_eligibility [of ?l example_sdc fresh_world]
          g0 g1 g2 w0 q l
    by simp
qed

text \<open>A recognised parameter that is present with an empty value does not narrow the
  query: the request reads the cache and writes the backend's answer to it.\<close>

theorem packages_list_empty_filter_uses_cache:
  "map_of (params (list_packages_req [(''name'', '''')])) ''name'' = Some '''' \<and>
   lookups (store (fst (packages_list example_sdc (list_packages_req [(''name'', '''')])
                          fresh_world)))
     = [''packages_930896af-bf8c-48d4-885c-6573a94b1853''] \<and>
   writes (store (fst (packages_list example_sdc (list_packages_req [(''name'', '''')])
                         fresh_world)))
     = [(''packages_930896af-bf8c-48d4-885c-6573a94b1853'', 60, example_packages)]"
  by code_simp

text \<open>
  C3.  For every package list request to which the cache layer reports an error on the
  read, whatever else it reports: the list operation proceeds exactly as its callback
  does on a miss; it queries the backend once with the request's filter; when the backend
  answers, the handler ends normally and the translated packages are sent; when the
  backend fails, the handler ends with the backend's error.  The cache error is never
  the result of the list operation.
\<close>

theorem list_cache_error_is_miss:
  assumes "cache_get (store w) (getCacheKey r) (canUseCache r) = (c, Some e, cached)"
    and "opts = set_prop (set_prop (list_opts r) ''active'' (JBool True))
                  ''owner_uuids'' (JStr (account_uuid r))"
    and "w1 = (if accountMgmt r then w\<lparr>role_tags := True\<rparr> else w)\<lparr>store := c\<rparr>"
  shows "packages_list s r w = list_cache_cb s r w1 opts (canUseCache r) (Some e) cached \<and>
         list_cache_cb s r w1 opts (canUseCache r) (Some e) cached
           = list_cache_cb s r w1 opts (canUseCache r) None None \<and>
         papi_queries (fst (packages_list s r w)) = papi_queries w @ [opts] \<and>
         (\<forall>pkgs. papi_list s opts = Inr pkgs \<longrightarrow>
            snd (packages_list s r w) = Next \<and>
            response (fst (packages_list s r w)) = Some (map (packages_translate r) pkgs)) \<and>
         (\<forall>e2. papi_list s opts = Inl e2 \<longrightarrow> snd (packages_list s r w) = NextErr e2)"
proof -
  have run: "packages_list s r w = list_cache_cb s r w1 opts (canUseCache r) (Some e) cached"
    using assms by (simp add: packages_list_def Let_def)
  have miss: "list_cache_cb s r w1 opts (canUseCache r) (Some e) cached
                = list_cache_cb s r w1 opts (canUseCache r) None None"
    by (simp add: list_cache_cb_def)
  have q: "papi_queries (fst (packages_list s r w)) = papi_queries w @ [opts]"
    unfolding run using assms(3)
    by (simp add: list_cache_cb_def sendResult_def Let_def split: sum.splits)
  have ok: "\<forall>pkgs. papi_list s opts = Inr pkgs \<longrightarrow>
            snd (packages_list s r w) = Next \<and>
            response (fst (packages_list s r w)) = Some (map (packages_translate r) pkgs)"
    unfolding run by (simp add: list_cache_cb_def sendResult_def Let_def)
  have err: "\<forall>e2. papi_list s opts = Inl e2 \<longrightarrow> snd (packages_list s r w) = NextErr e2"
    unfolding run by (simp add: list_cache_cb_def sendResult_def)
  from run miss q ok err show ?thesis by blast
qed

theorem list_cache_error_is_miss_witness:
  "canUseCache (list_packages_req []) \<and>
   fault (store faulty_world) = Some (CacheError ''ECONNREFUSED'') \<and>
   papi_list example_sdc list_packages_opts = Inr example_packages \<and>
   snd (packages_list example_sdc (list_packages_req []) faulty_world) = Next \<and>
   response (fst (packages_list example_sdc (list_packages_req []) faulty_world))
     = Some (map (packages_translate (list_packages_req [])) example_packages) \<and>
   papi_queries (fst (packages_list example_sdc (list_packages_req []) faulty_world))
     = [list_packages_opts] \<and>
   papi_list failing_sdc list_packages_opts = Inl (BackendError ''papi unavailable'') \<and>
   snd (packages_list failing_sdc (list_packages_req []) faulty_world)
     = NextErr (BackendError ''papi unavailable'')"
proof -
  let ?r = "list_packages_req []"
  let ?c = "(store faulty_world)\<lparr>lookups := lookups (store faulty_world) @ [getCacheKey ?r]\<rparr>"
  have cu: "canUseCache ?r"
    by code_simp
  have f: "fault (store faulty_world) = Some (CacheError ''ECONNREFUSED'')"
    by (simp add: faulty_world_def)
  have h1: "cache_get (store faulty_world) (getCacheKey ?r) (canUseCache ?r)
              = (?c, Some (CacheError ''ECONNREFUSED''), None)"
    using cu f by (simp add: cache_get_def Let_def)
  have h2: "list_packages_opts
              = set_prop (set_prop (list_opts ?r) ''active'' (JBool True))
                  ''owner_uuids'' (JStr (account_uuid ?r))"
    by code_simp
  have q: "papi_list example_sdc list_packages_opts = Inr example_packages"
    by code_simp
  have q2: "papi_list failing_sdc list_packages_opts = Inl (BackendError ''papi unavailable'')"
    by (simp add: failing_sdc_def)
  have w0: "papi_queries faulty_world = []"
    by (simp add: faulty_world_def fresh_world_def)
  note ok = list_cache_error_is_miss [OF h1 h2 refl, of example_sdc]
  note ko = list_cache_error_is_miss [OF h1 h2 refl, of failing_sdc]
  have a1: "snd (packages_list example_sdc ?r faulty_world) = Next"
    and a2: "response (fst (packages_list example_sdc ?r faulty_world))
               = Some (map (packages_translate ?r) example_packages)"
    using ok q by blast+
  have "papi_queries (fst (packages_list example_sdc ?r faulty_world))
          = papi_queries faulty_world @ [list_packages_opts]"
    using ok by blast
  then have a3: "papi_queries (fst (packages_list example_sdc ?r faulty_world))
                   = [list_packages_opts]"
    using w0 by simp
  have b: "snd (packages_list failing_sdc ?r faulty_world)
             = NextErr (BackendError ''papi unavailable'')"
    using ko q2 by blast
  from cu f q q2 a1 a2 a3 b show ?thesis by blast
qed

end
